theory Spec2Isabelle
  imports Main "HOL-Library.AList" "HOL-Library.List_Lexorder" "HOL-Library.Char_ord"
    "HOL-Library.Word"
begin

section \<open>Paths\<close>

text \<open>
  Both scripts run on a POSIX system: \<^verbatim>\<open>os.path.sep\<close> is \<^verbatim>\<open>/\<close>, so
  \<^verbatim>\<open>.replace(os.path.sep, '/')\<close> is the identity and is not written out.
  \<^verbatim>\<open>os.path.join(a, b)\<close> for two arguments (posixpath): a second argument that starts
  with the separator replaces the first; an empty first argument, or one that already
  ends with the separator, takes no extra separator.
\<close>

definition path_join :: "string \<Rightarrow> string \<Rightarrow> string" where
  "path_join a b =
     (if b \<noteq> [] \<and> hd b = CHR ''/'' then b
      else if a = [] \<or> last a = CHR ''/'' then a @ b
      else a @ ''/'' @ b)"

text \<open>
  A directory reached by the walk is identified by the names on the way from the walked
  directory down to it (\<open>[]\<close> is the walked directory itself).
  \<^verbatim>\<open>os.path.relpath(root, LOCAL_DIRECTORY_PATH)\<close> is \<^verbatim>\<open>.\<close> for the walked directory and
  the names joined by \<^verbatim>\<open>/\<close> below it. Directory entries are plain names, as the operating
  system lists them.
\<close>

fun join_names :: "string list \<Rightarrow> string" where
  "join_names [] = []"
| "join_names [n] = n"
| "join_names (n # m # ns) = n @ ''/'' @ join_names (m # ns)"

definition relpath_dir :: "string list \<Rightarrow> string" where
  "relpath_dir root = (if root = [] then ''.'' else join_names root)"

text \<open>\<^verbatim>\<open>os.path.relpath(os.path.join(root, filename), LOCAL_DIRECTORY_PATH)\<close>\<close>

definition relpath_file :: "string list \<Rightarrow> string \<Rightarrow> string" where
  "relpath_file root filename = join_names (root @ [filename])"

section \<open>The local tree and the walk\<close>

text \<open>
  A directory is the list of its entries, in the order \<^verbatim>\<open>os.walk\<close> lists them. An entry is
  a file (everything that is not a directory) or a directory with its own entries.
\<close>

datatype node = File string | Dir string "node list"

fun files_in :: "node list \<Rightarrow> string list" where
  "files_in [] = []"
| "files_in (File n # es) = n # files_in es"
| "files_in (Dir n cs # es) = files_in es"

fun dirs_in :: "node list \<Rightarrow> (string \<times> node list) list" where
  "dirs_in [] = []"
| "dirs_in (File n # es) = dirs_in es"
| "dirs_in (Dir n cs # es) = (n, cs) # dirs_in es"

text \<open>
  \<^verbatim>\<open>dirs.remove('.git')\<close> removes the first entry of that name; it is guarded by
  \<^verbatim>\<open>'.git' in dirs\<close>, so nothing is raised when there is none.
\<close>

fun remove_dir :: "string \<Rightarrow> (string \<times> node list) list \<Rightarrow> (string \<times> node list) list" where
  "remove_dir x [] = []"
| "remove_dir x ((n, cs) # ds) = (if n = x then ds else (n, cs) # remove_dir x ds)"

text \<open>
  The ignore rules: \<open>None\<close> stands for a \<^verbatim>\<open>spec\<close> that is false in \<^verbatim>\<open>if spec:\<close> (there is
  no \<^verbatim>\<open>.gitignore\<close>, or it holds no pattern); \<open>Some m\<close> for a compiled
  \<^verbatim>\<open>pathspec.PathSpec\<close>, with \<open>m p\<close> the value of \<^verbatim>\<open>spec.match_file(p)\<close>. The pattern
  language is the library's and is left open: every result below holds for every \<open>m\<close>.
\<close>

type_synonym pathspec = "(string \<Rightarrow> bool) option"

text \<open>
  The two statements both scripts run on \<^verbatim>\<open>dirs\<close> at the top of every iteration of the
  walk (main.py lines 139-141, sharepoint\_upload.py lines 133-139).
\<close>

definition prune_dirs ::
  "pathspec \<Rightarrow> string list \<Rightarrow> (string \<times> node list) list \<Rightarrow> (string \<times> node list) list" where
  "prune_dirs spec root dirs =
     (let dirs1 = (if ''.git'' \<in> set (map fst dirs) then remove_dir ''.git'' dirs else dirs)
      in case spec of
           None \<Rightarrow> dirs1
         | Some m \<Rightarrow> filter (\<lambda>d. \<not> m (path_join (relpath_dir root) (fst d))) dirs1)"

text \<open>
  \<^verbatim>\<open>os.walk(top, topdown=True)\<close> with the pruning above applied to each \<^verbatim>\<open>dirs\<close>: the
  triple of a directory is produced first (its directory as the list of names, and its
  file names), then the walk descends into the directories left in \<^verbatim>\<open>dirs\<close>, in order
  (\<open>walk_dirs\<close> is that loop over \<^verbatim>\<open>dirs\<close>).
\<close>

definition dirs_weight :: "(string \<times> node list) list \<Rightarrow> nat" where
  "dirs_weight ds = sum_list (map (\<lambda>d. Suc (size_list size (snd d))) ds)"

lemma dirs_weight_remove_dir: "dirs_weight (remove_dir x ds) \<le> dirs_weight ds"
  by (induction ds) (auto simp: dirs_weight_def)

lemma dirs_weight_filter: "dirs_weight (filter P ds) \<le> dirs_weight ds"
  by (induction ds) (auto simp: dirs_weight_def)

lemma dirs_weight_prune_dirs: "dirs_weight (prune_dirs spec root ds) \<le> dirs_weight ds"
proof (cases spec)
  case None
  then show ?thesis
    using dirs_weight_remove_dir [of "''.git''" ds] by (simp add: prune_dirs_def)
next
  case (Some m)
  have "dirs_weight (prune_dirs spec root ds)
      \<le> dirs_weight (if ''.git'' \<in> set (map fst ds) then remove_dir ''.git'' ds else ds)"
    using Some by (simp add: prune_dirs_def Let_def dirs_weight_filter)
  also have "\<dots> \<le> dirs_weight ds"
    using dirs_weight_remove_dir [of "''.git''" ds] by simp
  finally show ?thesis .
qed

lemma dirs_weight_dirs_in: "dirs_weight (dirs_in es) \<le> size_list size es"
  by (induction es rule: dirs_in.induct) (auto simp: dirs_weight_def)

function walk :: "pathspec \<Rightarrow> string list \<Rightarrow> node list \<Rightarrow> (string list \<times> string list) list"
  and walk_dirs ::
    "pathspec \<Rightarrow> string list \<Rightarrow> (string \<times> node list) list \<Rightarrow> (string list \<times> string list) list"
  where
  "walk spec root entries =
     (root, files_in entries) # walk_dirs spec root (prune_dirs spec root (dirs_in entries))"
| "walk_dirs spec root [] = []"
| "walk_dirs spec root (d # ds) = walk spec (root @ [fst d]) (snd d) @ walk_dirs spec root ds"
  by pat_completeness auto
termination
proof (relation "measure (\<lambda>x. case x of
    Inl (spec, root, entries) \<Rightarrow> 2 * size_list size entries + 1
  | Inr (spec, root, ds) \<Rightarrow> 2 * dirs_weight ds)")
  fix spec :: pathspec and root :: "string list" and entries :: "node list"
  have "dirs_weight (prune_dirs spec root (dirs_in entries)) \<le> size_list size entries"
    using dirs_weight_prune_dirs [of spec root "dirs_in entries"] dirs_weight_dirs_in [of entries]
    by simp
  then show "(Inr (spec, root, prune_dirs spec root (dirs_in entries)), Inl (spec, root, entries))
      \<in> measure (\<lambda>x. case x of
          Inl (spec, root, entries) \<Rightarrow> 2 * size_list size entries + 1
        | Inr (spec, root, ds) \<Rightarrow> 2 * dirs_weight ds)"
    by simp
qed (simp_all add: dirs_weight_def)

declare walk.simps(1) [simp del]

text \<open>
  main.py, step 1: \<^verbatim>\<open>local_files\<close>, the set of relative paths of the files the walk
  reaches and the rules do not match.
\<close>

definition kept_files :: "pathspec \<Rightarrow> string list \<times> string list \<Rightarrow> string list" where
  "kept_files spec triple =
     (case triple of (root, files) \<Rightarrow>
        filter (\<lambda>relative_path. case spec of None \<Rightarrow> True | Some m \<Rightarrow> \<not> m relative_path)
               (map (relpath_file root) files))"

definition local_file_list :: "pathspec \<Rightarrow> node list \<Rightarrow> string list" where
  "local_file_list spec entries = concat (map (kept_files spec) (walk spec [] entries))"

definition local_files :: "pathspec \<Rightarrow> node list \<Rightarrow> string set" where
  "local_files spec entries = set (local_file_list spec entries)"

section \<open>Requests, log lines and outcomes\<close>

text \<open>
  A run is observed through the requests it sends and the lines it prints, in order. The
  bearer token of a request is what \<^verbatim>\<open>get_access_token\<close> returned: \<open>None\<close> is Python's
  \<^verbatim>\<open>None\<close> (the header then reads \<^verbatim>\<open>Bearer None\<close>). A chunk is sent to the upload URL
  with its \<^verbatim>\<open>Content-Range\<close> (start, end, total) and carries no token.
\<close>

type_synonym byte = "8 word"
type_synonym token = "string option"

datatype request =
    Get_children token string
  | Delete_item token string
  | Create_upload_session token string
  | Put_chunk string int int int "byte list"

datatype message =
    Gathering_local_file_list
  | Authenticating
  | Access_token_acquired
  | Error_acquiring_access_token
  | Sync_deletions_enabled
  | Sync_deletions_disabled
  | Folder_not_found string
  | Error_listing_remote_files string int
  | Found_files_to_delete nat
  | Deleting string
  | Already_in_sync
  | Successfully_deleted string
  | Error_deleting_item string int
  | Starting_file_uploads
  | Error_creating_upload_session string int
  | Error_uploading_chunk string int
  | Successfully_uploaded string
  | Process_finished
  | Gitignore_report
  | File_was_not_found string
  | Could_not_get_upload_url string
  | Ignoring string
  | Please_fill_in_details
  | Local_directory_does_not_exist string
  | Starting_directory_upload
  | Directory_upload_finished

datatype event = Request request | Print message

text \<open>
  What ends a run early: \<^verbatim>\<open>exit(n)\<close> (the process ends with status \<open>n\<close>), or an exception
  nothing catches (the interpreter prints the traceback and ends with a non-zero status).
\<close>

datatype abort = SystemExit int | Uncaught string

type_synonym 'a run = "event list \<times> (abort + 'a)"

definition seq :: "'a run \<Rightarrow> ('a \<Rightarrow> 'b run) \<Rightarrow> 'b run" where
  "seq r f =
     (case r of
        (evs, Inl a) \<Rightarrow> (evs, Inl a)
      | (evs, Inr x) \<Rightarrow> (case f x of (evs', r') \<Rightarrow> (evs @ evs', r')))"

definition say :: "event list \<Rightarrow> unit run" where
  "say evs = (evs, Inr ())"

section \<open>The world outside the scripts\<close>

text \<open>
  The remote listing. Every \<^verbatim>\<open>children\<close> request is answered by a status code and, in the
  body's \<^verbatim>\<open>value\<close>, a list of items; an item has a name and an id, may have a \<^verbatim>\<open>file\<close>
  key, may have a \<^verbatim>\<open>folder\<close> key, and carries the answer the store gives when the
  children of that item are requested in turn.
\<close>

datatype item = Item (item_name: string) (item_id: string) (has_file: bool) (has_folder: bool)
    (item_children: listing)
  and listing = Listing (status_code: int) (listing_value: "item list")

text \<open>
  Everything else the scripts read: the ignore rules, the entries of the local directory
  (\<open>None\<close> when \<^verbatim>\<open>LOCAL_DIRECTORY_PATH\<close> is not a directory), the contents of the regular
  files by local path (\<open>None\<close>: no such file), the dictionary the identity provider
  returns, the listing of the base folder, and the status codes (and the \<^verbatim>\<open>uploadUrl\<close>)
  the store answers with. Every request is answered by a response with a JSON body.
\<close>

record world =
  gitignore :: pathspec
  local_tree :: "node list option"
  file_content :: "string \<Rightarrow> byte list option"
  auth_result :: "string \<Rightarrow> string option"
  remote_root :: listing
  delete_status :: "string \<Rightarrow> int"
  session_status :: "string \<Rightarrow> int"
  session_upload_url :: "string \<Rightarrow> string option"
  chunk_status :: "string \<Rightarrow> int \<Rightarrow> int \<Rightarrow> int"

record config =
  tenant_id :: string
  local_directory_path :: string
  sharepoint_base_folder :: string
  sync_deletions :: bool

section \<open>main.py\<close>

definition get_access_token :: "(string \<Rightarrow> string option) \<Rightarrow> event list \<times> token" where
  "get_access_token result =
     (if result ''access_token'' \<noteq> None
      then ([Print Access_token_acquired], result ''access_token'')
      else ([Print Error_acquiring_access_token], None))"

text \<open>
  \<^verbatim>\<open>response.raise_for_status()\<close> raises \<^verbatim>\<open>HTTPError\<close> for the client and server error
  codes.
\<close>

definition raise_for_status :: "int \<Rightarrow> bool" where
  "raise_for_status st = (400 \<le> st \<and> st < 600)"

type_synonym dict = "(string \<times> string) list"

text \<open>\<^verbatim>\<open>d.update(other)\<close>: the entries of \<^verbatim>\<open>other\<close> are stored into \<^verbatim>\<open>d\<close>, in order.\<close>

definition dict_update :: "dict \<Rightarrow> dict \<Rightarrow> dict" where
  "dict_update d other = fold (\<lambda>kv acc. AList.update (fst kv) (snd kv) acc) other d"

definition api_path :: "string \<Rightarrow> string \<Rightarrow> string" where
  "api_path base item_path =
     (if item_path = [] then ''root:/'' @ base else ''root:/'' @ base @ ''/'' @ item_path)"

text \<open>
  \<^verbatim>\<open>get_remote_files_recursive\<close>; \<open>list_items\<close> is its \<^verbatim>\<open>for item in items\<close> loop, with
  \<^verbatim>\<open>remote_files\<close> as it stands when the loop reaches the item. The \<^verbatim>\<open>except\<close> clause
  stands in every call, the nested ones too. \<^verbatim>\<open>exit(1)\<close> raises \<^verbatim>\<open>SystemExit\<close>, which no
  caller catches. The pause before a nested call sends and prints nothing.
\<close>

fun get_remote_files_recursive :: "string \<Rightarrow> token \<Rightarrow> string \<Rightarrow> listing \<Rightarrow> dict run"
  and list_items :: "string \<Rightarrow> token \<Rightarrow> string \<Rightarrow> item list \<Rightarrow> dict \<Rightarrow> dict run"
  where
  "get_remote_files_recursive base access_token item_path (Listing st items) =
     (if raise_for_status st then
        (if st = 404
         then ([Request (Get_children access_token (api_path base item_path)),
                Print (Folder_not_found base)], Inr [])
         else ([Request (Get_children access_token (api_path base item_path)),
                Print (Error_listing_remote_files item_path st)], Inl (SystemExit 1)))
      else seq ([Request (Get_children access_token (api_path base item_path))], Inr ())
             (\<lambda>_. list_items base access_token item_path items []))"
| "list_items base access_token item_path [] remote_files = ([], Inr remote_files)"
| "list_items base access_token item_path (Item name ident is_file is_folder sub # items)
       remote_files =
     (if is_file then
        list_items base access_token item_path items
          (AList.update (path_join item_path name) ident remote_files)
      else if is_folder then
        seq (get_remote_files_recursive base access_token (path_join item_path name) sub)
          (\<lambda>found. list_items base access_token item_path items (dict_update remote_files found))
      else list_items base access_token item_path items remote_files)"

definition delete_sharepoint_item :: "world \<Rightarrow> token \<Rightarrow> string \<Rightarrow> event list" where
  "delete_sharepoint_item w access_token ident =
     [Request (Delete_item access_token ident),
      if delete_status w ident = 204 then Print (Successfully_deleted ident)
      else Print (Error_deleting_item ident (delete_status w ident))]"

text \<open>
  The chunk loop of \<^verbatim>\<open>upload_file_to_sharepoint\<close>, the same in both scripts (main.py lines
  115-124; sharepoint\_upload.py lines 92-112, where the cursor is called
  \<^verbatim>\<open>chunks_uploaded\<close>). \<open>rest\<close> is what the file object has not read yet. The loop ends at
  the end of the file, at a rejected chunk (with its status), or when \<^verbatim>\<open>requests.put\<close>
  raises because there is no URL to send to.
\<close>

datatype loop_end = End_of_file | Rejected int | Put_raised

function transfer_loop ::
  "world \<Rightarrow> string option \<Rightarrow> nat \<Rightarrow> int \<Rightarrow> byte list \<Rightarrow> int \<Rightarrow> event list \<times> loop_end" where
  "transfer_loop w upload_url chunk_size file_size rest start_index =
     (let chunk = take chunk_size rest in
      if chunk = [] then ([], End_of_file)
      else
        (case upload_url of
           None \<Rightarrow> ([], Put_raised)
         | Some url \<Rightarrow>
            (if url = [] then ([], Put_raised)
             else
               (let end_index = start_index + int (length chunk) - 1;
                    st = chunk_status w url start_index end_index
                in if \<not> (200 \<le> st \<and> st \<le> 204)
                   then ([Request (Put_chunk url start_index end_index file_size chunk)],
                         Rejected st)
                   else
                     (case transfer_loop w upload_url chunk_size file_size
                             (drop chunk_size rest) (end_index + 1) of
                        (evs, e) \<Rightarrow>
                          (Request (Put_chunk url start_index end_index file_size chunk) # evs,
                           e))))))"
  by pat_completeness auto
termination
  by (relation "measure (\<lambda>(w, upload_url, chunk_size, file_size, rest, start_index). length rest)")
    (auto simp: Let_def)

declare transfer_loop.simps [simp del]

definition upload_file_to_sharepoint :: "world \<Rightarrow> token \<Rightarrow> string \<Rightarrow> string \<Rightarrow> unit run" where
  "upload_file_to_sharepoint w access_token local_file_path sharepoint_file_path =
     (if session_status w sharepoint_file_path \<noteq> 200 then
        ([Request (Create_upload_session access_token sharepoint_file_path),
          Print (Error_creating_upload_session sharepoint_file_path
                   (session_status w sharepoint_file_path))], Inr ())
      else
        (case file_content w local_file_path of
           None \<Rightarrow>
             ([Request (Create_upload_session access_token sharepoint_file_path)],
              Inl (Uncaught ''FileNotFoundError''))
         | Some content \<Rightarrow>
            (case transfer_loop w (session_upload_url w sharepoint_file_path)
                    (4 * 1024 * 1024) (int (length content)) content 0 of
               (evs, End_of_file) \<Rightarrow>
                 (Request (Create_upload_session access_token sharepoint_file_path) # evs @
                    [Print (Successfully_uploaded sharepoint_file_path)], Inr ())
             | (evs, Rejected st) \<Rightarrow>
                 (Request (Create_upload_session access_token sharepoint_file_path) # evs @
                    [Print (Error_uploading_chunk sharepoint_file_path st)], Inr ())
             | (evs, Put_raised) \<Rightarrow>
                 (Request (Create_upload_session access_token sharepoint_file_path) # evs,
                  Inl (Uncaught ''MissingSchema'')))))"

text \<open>
  The deletion step (main.py lines 152-168) after the listing returned
  \<^verbatim>\<open>remote_files_map\<close>; \<open>delete_files\<close> is its \<^verbatim>\<open>for file_path in sorted(...)\<close> loop.
  \<^verbatim>\<open>remote_files_map[file_path]\<close> raises \<^verbatim>\<open>KeyError\<close> for a path the dictionary does not
  hold.
\<close>

fun delete_files :: "world \<Rightarrow> token \<Rightarrow> dict \<Rightarrow> string list \<Rightarrow> unit run" where
  "delete_files w token remote_files_map [] = ([], Inr ())"
| "delete_files w token remote_files_map (file_path # paths) =
     (case map_of remote_files_map file_path of
        None \<Rightarrow> ([Print (Deleting file_path)], Inl (Uncaught ''KeyError''))
      | Some ident \<Rightarrow>
          seq (say (Print (Deleting file_path) # delete_sharepoint_item w token ident))
            (\<lambda>_. delete_files w token remote_files_map paths))"

definition files_to_delete :: "dict \<Rightarrow> string set \<Rightarrow> string set" where
  "files_to_delete remote_files_map local = set (map fst remote_files_map) - local"

definition deletion_step :: "world \<Rightarrow> token \<Rightarrow> dict \<Rightarrow> string set \<Rightarrow> unit run" where
  "deletion_step w token remote_files_map local =
     (if files_to_delete remote_files_map local \<noteq> {} then
        seq (say [Print (Found_files_to_delete (card (files_to_delete remote_files_map local)))])
          (\<lambda>_. delete_files w token remote_files_map
                  (sorted_list_of_set (files_to_delete remote_files_map local)))
      else say [Print Already_in_sync])"

text \<open>The upload step (main.py lines 172-175).\<close>

fun upload_files :: "config \<Rightarrow> world \<Rightarrow> token \<Rightarrow> string list \<Rightarrow> unit run" where
  "upload_files cfg w token [] = ([], Inr ())"
| "upload_files cfg w token (relative_path # paths) =
     seq (upload_file_to_sharepoint w token
            (path_join (local_directory_path cfg) relative_path)
            (path_join (sharepoint_base_folder cfg) relative_path))
       (\<lambda>_. upload_files cfg w token paths)"

text \<open>
  \<^verbatim>\<open>os.walk\<close> on a path that is not a directory yields nothing.
\<close>

definition local_entries :: "world \<Rightarrow> node list" where
  "local_entries w = (case local_tree w of None \<Rightarrow> [] | Some entries \<Rightarrow> entries)"

definition scan_local :: "world \<Rightarrow> string set" where
  "scan_local w =
     (case local_tree w of None \<Rightarrow> {} | Some entries \<Rightarrow> local_files (gitignore w) entries)"

text \<open>The main block of main.py.\<close>

definition main :: "config \<Rightarrow> world \<Rightarrow> unit run" where
  "main cfg w =
     seq (say [Print Gathering_local_file_list, Print Authenticating]) (\<lambda>_.
     seq (fst (get_access_token (auth_result w)), Inr (snd (get_access_token (auth_result w))))
       (\<lambda>token.
     seq (if sync_deletions cfg then
            seq (say [Print Sync_deletions_enabled]) (\<lambda>_.
            seq (get_remote_files_recursive (sharepoint_base_folder cfg) token [] (remote_root w))
              (\<lambda>remote_files_map. deletion_step w token remote_files_map (scan_local w)))
          else say [Print Sync_deletions_disabled]) (\<lambda>_.
     seq (say [Print Starting_file_uploads]) (\<lambda>_.
     seq (upload_files cfg w token (sorted_list_of_set (scan_local w))) (\<lambda>_.
     say [Print Process_finished])))))"

section \<open>sharepoint\_upload.py\<close>

text \<open>
  The standalone uploader's \<^verbatim>\<open>upload_file_to_sharepoint\<close>. It returns on every path, so
  it is the list of what it sends and prints.
\<close>

definition su_upload_file_to_sharepoint :: "world \<Rightarrow> token \<Rightarrow> string \<Rightarrow> string \<Rightarrow> event list" where
  "su_upload_file_to_sharepoint w access_token local_file_path sharepoint_file_path =
     (case file_content w local_file_path of
        None \<Rightarrow> [Print (File_was_not_found local_file_path)]
      | Some content \<Rightarrow>
         (if session_status w sharepoint_file_path \<noteq> 200 then
            [Request (Create_upload_session access_token sharepoint_file_path),
             Print (Error_creating_upload_session sharepoint_file_path
                      (session_status w sharepoint_file_path))]
          else if session_upload_url w sharepoint_file_path = None
                  \<or> session_upload_url w sharepoint_file_path = Some [] then
            [Request (Create_upload_session access_token sharepoint_file_path),
             Print (Could_not_get_upload_url sharepoint_file_path)]
          else
            (case transfer_loop w (session_upload_url w sharepoint_file_path)
                    (1 * 1024 * 1024) (int (length content)) content 0 of
               (evs, Rejected st) \<Rightarrow>
                 Request (Create_upload_session access_token sharepoint_file_path) # evs @
                   [Print (Error_uploading_chunk sharepoint_file_path st)]
             | (evs, _) \<Rightarrow>
                 Request (Create_upload_session access_token sharepoint_file_path) # evs @
                   [Print (Successfully_uploaded sharepoint_file_path)])))"

text \<open>
  The loops of the main block: \<open>su_files\<close> is \<^verbatim>\<open>for filename in files\<close> in the directory
  \<open>root\<close>, \<open>su_triples\<close> is the loop over the triples of the walk. \<^verbatim>\<open>os.walk\<close> forms the path
  of a directory by joining the names onto \<^verbatim>\<open>LOCAL_DIRECTORY_PATH\<close> one at a time.
\<close>

definition root_path :: "config \<Rightarrow> string list \<Rightarrow> string" where
  "root_path cfg root = foldl path_join (local_directory_path cfg) root"

fun su_files :: "config \<Rightarrow> world \<Rightarrow> token \<Rightarrow> string list \<Rightarrow> string list \<Rightarrow> event list" where
  "su_files cfg w token root [] = []"
| "su_files cfg w token root (filename # files) =
     (if (case gitignore w of None \<Rightarrow> False | Some m \<Rightarrow> m (relpath_file root filename))
      then [Print (Ignoring (relpath_file root filename))]
      else su_upload_file_to_sharepoint w token
             (path_join (root_path cfg root) filename)
             (path_join (sharepoint_base_folder cfg) (relpath_file root filename)))
     @ su_files cfg w token root files"

fun su_triples ::
  "config \<Rightarrow> world \<Rightarrow> token \<Rightarrow> (string list \<times> string list) list \<Rightarrow> event list" where
  "su_triples cfg w token [] = []"
| "su_triples cfg w token ((root, files) # triples) =
     su_files cfg w token root files @ su_triples cfg w token triples"

text \<open>
  \<^verbatim>\<open>"YOUR_TENANT_ID" in TENANT_ID\<close>; \<open>Gitignore_report\<close> below is the one line
  \<^verbatim>\<open>get_gitignore_spec\<close> prints (found, or not found).
\<close>

fun contains :: "string \<Rightarrow> string \<Rightarrow> bool" where
  "contains sub [] = (sub = [])"
| "contains sub (c # cs) = (take (length sub) (c # cs) = sub \<or> contains sub cs)"

definition su_main :: "config \<Rightarrow> world \<Rightarrow> event list" where
  "su_main cfg w =
     (if contains ''YOUR_TENANT_ID'' (tenant_id cfg) \<or> local_tree w = None then
        Print Please_fill_in_details #
        (if local_tree w = None
         then [Print (Local_directory_does_not_exist (local_directory_path cfg))] else [])
      else
        fst (get_access_token (auth_result w)) @
        (if snd (get_access_token (auth_result w)) \<noteq> None
            \<and> snd (get_access_token (auth_result w)) \<noteq> Some []
         then
           Print Starting_directory_upload #
           Print Gitignore_report #
           su_triples cfg w (snd (get_access_token (auth_result w)))
             (walk (gitignore w) [] (local_entries w)) @
           [Print Directory_upload_finished]
         else []))"

section \<open>Observations on a run, and example inputs\<close>

fun chunk_ranges :: "event list \<Rightarrow> (int \<times> int) list" where
  "chunk_ranges [] = []"
| "chunk_ranges (Request (Put_chunk url a b n chunk) # evs) = (a, b) # chunk_ranges evs"
| "chunk_ranges (e # evs) = chunk_ranges evs"

fun contiguous :: "int \<Rightarrow> (int \<times> int) list \<Rightarrow> int \<Rightarrow> bool" where
  "contiguous s [] t = (s = t)"
| "contiguous s ((a, b) # rs) t = (a = s \<and> a \<le> b \<and> contiguous (b + 1) rs t)"

fun cursor_after :: "int \<Rightarrow> (int \<times> int) list \<Rightarrow> int" where
  "cursor_after s [] = s"
| "cursor_after s ((a, b) # rs) = cursor_after (b + 1) rs"

definition covered :: "(int \<times> int) list \<Rightarrow> int set" where
  "covered rs = (\<Union>r \<in> set rs. {fst r .. snd r})"

definition example_rules :: "string \<Rightarrow> bool" where
  "example_rules p = (p = ''./build'' \<or> p = ''notes.log'')"

definition example_tree :: "node list" where
  "example_tree =
     [File ''a.txt'', File ''empty'', File ''notes.log'',
      Dir ''.git'' [File ''config''],
      Dir ''build'' [File ''out.bin''],
      Dir ''sub'' [File ''b.txt'']]"

definition example_world :: world where
  "example_world =
     \<lparr>gitignore = Some example_rules,
      local_tree = Some example_tree,
      file_content = (\<lambda>p. if p = ''data/a.txt'' then Some [1, 2, 3]
                           else if p = ''data/empty'' then Some []
                           else if p = ''data/sub/b.txt'' then Some [7]
                           else None),
      auth_result = (\<lambda>k. if k = ''access_token'' then Some ''tok'' else None),
      remote_root = Listing 200
        [Item ''a.txt'' ''id-a'' True False (Listing 200 []),
         Item ''old'' ''id-old'' False True
           (Listing 200 [Item ''stale.txt'' ''id-stale'' True False (Listing 200 [])])],
      delete_status = (\<lambda>i. 204),
      session_status = (\<lambda>p. 200),
      session_upload_url = (\<lambda>p. Some (''https://upload/'' @ p)),
      chunk_status = (\<lambda>url a b. 202)\<rparr>"

definition example_config :: config where
  "example_config =
     \<lparr>tenant_id = ''contoso'', local_directory_path = ''data'',
      sharepoint_base_folder = ''Docs'', sync_deletions = True\<rparr>"


text \<open>
  What the chunk requests of one upload look like for a file of \<open>file_size\<close> bytes: the
  ranges follow one another from byte 0 with no gap (each starts where the cursor stands,
  and the cursor then stands one past its end), a later range lies wholly after an earlier
  one, together they are the bytes below the final cursor, and the cursor never passes
  the size of the file.
\<close>

definition ranges_in_order :: "event list \<Rightarrow> int \<Rightarrow> bool" where
  "ranges_in_order evs file_size =
     (contiguous 0 (chunk_ranges evs) (cursor_after 0 (chunk_ranges evs))
      \<and> sorted_wrt (\<lambda>r r'. snd r < fst r') (chunk_ranges evs)
      \<and> covered (chunk_ranges evs) = {0 ..< cursor_after 0 (chunk_ranges evs)}
      \<and> cursor_after 0 (chunk_ranges evs) \<le> file_size
      \<and> (\<forall>r \<in> set (chunk_ranges evs). 0 \<le> fst r \<and> fst r \<le> snd r \<and> snd r < file_size))"

text \<open>The item ids of the delete requests of a run, and the paths it announces as deleted.\<close>

fun delete_requests :: "event list \<Rightarrow> string list" where
  "delete_requests [] = []"
| "delete_requests (Request (Delete_item t ident) # evs) = ident # delete_requests evs"
| "delete_requests (e # evs) = delete_requests evs"

fun deleted_paths :: "event list \<Rightarrow> string list" where
  "deleted_paths [] = []"
| "deleted_paths (Print (Deleting p) # evs) = p # deleted_paths evs"
| "deleted_paths (e # evs) = deleted_paths evs"

text \<open>The destination paths of the upload sessions a run asks for.\<close>

fun session_requests :: "event list \<Rightarrow> string list" where
  "session_requests [] = []"
| "session_requests (Request (Create_upload_session t p) # evs) = p # session_requests evs"
| "session_requests (e # evs) = session_requests evs"

text \<open>The bearer tokens of the requests of a run that carry one.\<close>

fun tokens_sent :: "event list \<Rightarrow> token list" where
  "tokens_sent [] = []"
| "tokens_sent (Request (Get_children t p) # evs) = t # tokens_sent evs"
| "tokens_sent (Request (Delete_item t i) # evs) = t # tokens_sent evs"
| "tokens_sent (Request (Create_upload_session t p) # evs) = t # tokens_sent evs"
| "tokens_sent (e # evs) = tokens_sent evs"

text \<open>
  More example inputs: the example with a file that is gone when it is to be read; with
  an identity provider that returns no token (and a store that then answers 401).
\<close>

definition example_world_file_gone :: world where
  "example_world_file_gone =
     example_world\<lparr>file_content :=
       (\<lambda>p. if p = ''data/a.txt'' then None else file_content example_world p)\<rparr>"

definition example_world_no_token :: world where
  "example_world_no_token =
     example_world\<lparr>auth_result := (\<lambda>k. None), session_status := (\<lambda>p. 401)\<rparr>"

text \<open>What each step of main.py sends and prints, by kind.\<close>

fun is_listing_event :: "event \<Rightarrow> bool" where
  "is_listing_event (Request (Get_children t p)) = True"
| "is_listing_event (Print (Folder_not_found b)) = True"
| "is_listing_event (Print (Error_listing_remote_files p st)) = True"
| "is_listing_event e = False"

fun is_deletion_event :: "event \<Rightarrow> bool" where
  "is_deletion_event (Request (Delete_item t i)) = True"
| "is_deletion_event (Print (Found_files_to_delete n)) = True"
| "is_deletion_event (Print (Deleting p)) = True"
| "is_deletion_event (Print Already_in_sync) = True"
| "is_deletion_event (Print (Successfully_deleted i)) = True"
| "is_deletion_event (Print (Error_deleting_item i st)) = True"
| "is_deletion_event e = False"

fun is_upload_event :: "event \<Rightarrow> bool" where
  "is_upload_event (Request (Create_upload_session t p)) = True"
| "is_upload_event (Request (Put_chunk url a b n chunk)) = True"
| "is_upload_event (Print (Error_creating_upload_session p st)) = True"
| "is_upload_event (Print (Error_uploading_chunk p st)) = True"
| "is_upload_event (Print (Successfully_uploaded p)) = True"
| "is_upload_event e = False"

text \<open>
  A listing fails when a folder whose children are requested answers with an error status
  other than 404: the folder the call is made on, or a folder item (one that has no
  \<^verbatim>\<open>file\<close> key and has a \<^verbatim>\<open>folder\<close> key) found on the way.
\<close>

fun listing_fails :: "listing \<Rightarrow> bool"
  and items_fail :: "item list \<Rightarrow> bool" where
  "listing_fails (Listing st items) = (if raise_for_status st then st \<noteq> 404 else items_fail items)"
| "items_fail [] = False"
| "items_fail (Item name ident is_file is_folder sub # items) =
     (if \<not> is_file \<and> is_folder \<and> listing_fails sub then True else items_fail items)"

definition example_world_listing_fails :: world where
  "example_world_listing_fails =
     example_world\<lparr>remote_root := Listing 200
       [Item ''a.txt'' ''id-a'' True False (Listing 200 []),
        Item ''stale.txt'' ''id-stale'' True False (Listing 200 []),
        Item ''old'' ''id-old'' False True (Listing 503 [])]\<rparr>"

text \<open>
  A file of two full chunks of main.py (eight of the standalone uploader) and two bytes
  more, in a store that accepts everything.
\<close>

definition large_content :: "byte list" where
  "large_content = replicate 4194304 0 @ replicate 4194304 1 @ [2, 3]"

definition example_world_large :: world where
  "example_world_large =
     example_world\<lparr>file_content :=
       (\<lambda>p. if p = ''data/big.bin'' then Some large_content else None)\<rparr>"

text \<open>
  The example with a remote base folder that exists and holds a file, a subfolder that
  answers 404 when its children are asked for, and a file that is not in the local tree.
\<close>

definition example_world_nested_404 :: world where
  "example_world_nested_404 =
     example_world\<lparr>remote_root := Listing 200
       [Item ''a.txt'' ''id-a'' True False (Listing 200 []),
        Item ''gone'' ''id-gone'' False True (Listing 404 []),
        Item ''stale.txt'' ''id-stale'' True False (Listing 200 [])]\<rparr>"

text \<open>
  The upload sessions of the remote store, as the specification describes them (the store
  is not code of this repository). Opening a session for a destination path gives an
  upload address. The bytes of an accepted chunk are kept with the session; nothing of
  them is visible at the destination. The answer to the accepted chunk that ends at the
  last byte of the declared size is the completion signal: with it the destination holds
  the bytes of the session, in place of what it held before, and the session is gone.
  The statuses of the answers are those of the world of the run. Listing and deletion
  requests do not touch a session.
\<close>

record store =
  store_files :: "string \<Rightarrow> byte list option"
  store_sessions :: "string \<Rightarrow> (string \<times> byte list) option"

fun is_completion :: "world \<Rightarrow> event \<Rightarrow> bool" where
  "is_completion w (Request (Put_chunk url a b n chunk)) =
     (200 \<le> chunk_status w url a b \<and> chunk_status w url a b \<le> 204 \<and> b + 1 = n)"
| "is_completion w e = False"

fun store_event :: "world \<Rightarrow> event \<Rightarrow> store \<Rightarrow> store" where
  "store_event w (Request (Create_upload_session t dest)) st =
     (if session_status w dest = 200
      then (case session_upload_url w dest of
              None \<Rightarrow> st
            | Some url \<Rightarrow> st\<lparr>store_sessions := (store_sessions st)(url := Some (dest, []))\<rparr>)
      else st)"
| "store_event w (Request (Put_chunk url a b n chunk)) st =
     (case store_sessions st url of
        None \<Rightarrow> st
      | Some (dest, received) \<Rightarrow>
          (if 200 \<le> chunk_status w url a b \<and> chunk_status w url a b \<le> 204
           then (if b + 1 = n
                 then st\<lparr>store_files := (store_files st)(dest := Some (received @ chunk)),
                         store_sessions := (store_sessions st)(url := None)\<rparr>
                 else st\<lparr>store_sessions := (store_sessions st)(url := Some (dest, received @ chunk))\<rparr>)
           else st))"
| "store_event w e st = st"

definition store_after :: "world \<Rightarrow> store \<Rightarrow> event list \<Rightarrow> store" where
  "store_after w st evs = fold (store_event w) evs st"

definition completion_signals :: "world \<Rightarrow> event list \<Rightarrow> event list" where
  "completion_signals w evs = filter (is_completion w) evs"

definition empty_store :: store where
  "empty_store = \<lparr>store_files = (\<lambda>p. None), store_sessions = (\<lambda>url. None)\<rparr>"

text \<open>The example on its first run: the base folder does not exist in the store yet.\<close>

definition example_world_no_remote :: world where
  "example_world_no_remote = example_world\<lparr>remote_root := Listing 404 []\<rparr>"






section \<open>Properties of the chunk loop\<close>

lemma transfer_loop_end:
  "take n rest = [] \<Longrightarrow> transfer_loop w u n fs rest s = ([], End_of_file)"
  by (subst transfer_loop.simps) simp

lemma transfer_loop_no_url:
  "take n rest \<noteq> [] \<Longrightarrow> transfer_loop w None n fs rest s = ([], Put_raised)"
  by (subst transfer_loop.simps) auto

lemma transfer_loop_empty_url:
  "take n rest \<noteq> [] \<Longrightarrow> transfer_loop w (Some []) n fs rest s = ([], Put_raised)"
  by (subst transfer_loop.simps) auto

lemma transfer_loop_reject:
  "take n rest \<noteq> [] \<Longrightarrow> url \<noteq> [] \<Longrightarrow>
   \<not> (200 \<le> chunk_status w url s (s + int (length (take n rest)) - 1)
      \<and> chunk_status w url s (s + int (length (take n rest)) - 1) \<le> 204) \<Longrightarrow>
   transfer_loop w (Some url) n fs rest s =
     ([Request (Put_chunk url s (s + int (length (take n rest)) - 1) fs (take n rest))],
      Rejected (chunk_status w url s (s + int (length (take n rest)) - 1)))"
  by (subst transfer_loop.simps) (simp add: Let_def)

lemma transfer_loop_accept:
  "take n rest \<noteq> [] \<Longrightarrow> url \<noteq> [] \<Longrightarrow>
   200 \<le> chunk_status w url s (s + int (length (take n rest)) - 1) \<Longrightarrow>
   chunk_status w url s (s + int (length (take n rest)) - 1) \<le> 204 \<Longrightarrow>
   transfer_loop w (Some url) n fs rest s =
     (Request (Put_chunk url s (s + int (length (take n rest)) - 1) fs (take n rest))
        # fst (transfer_loop w (Some url) n fs (drop n rest) (s + int (length (take n rest)))),
      snd (transfer_loop w (Some url) n fs (drop n rest) (s + int (length (take n rest)))))"
  by (subst transfer_loop.simps) (simp add: Let_def split: prod.splits)

text \<open>Induction along the iterations of the loop.\<close>

lemma transfer_loop_cases [case_names eof no_url rejected accepted]:
  assumes "\<And>rest s. take n rest = [] \<Longrightarrow> P rest s"
    and "\<And>rest s. take n rest \<noteq> [] \<Longrightarrow> u = None \<or> u = Some [] \<Longrightarrow> P rest s"
    and "\<And>rest s url. take n rest \<noteq> [] \<Longrightarrow> u = Some url \<Longrightarrow> url \<noteq> [] \<Longrightarrow>
           \<not> (200 \<le> chunk_status w url s (s + int (length (take n rest)) - 1)
              \<and> chunk_status w url s (s + int (length (take n rest)) - 1) \<le> 204) \<Longrightarrow> P rest s"
    and "\<And>rest s url. take n rest \<noteq> [] \<Longrightarrow> u = Some url \<Longrightarrow> url \<noteq> [] \<Longrightarrow>
           200 \<le> chunk_status w url s (s + int (length (take n rest)) - 1) \<Longrightarrow>
           chunk_status w url s (s + int (length (take n rest)) - 1) \<le> 204 \<Longrightarrow>
           P (drop n rest) (s + int (length (take n rest))) \<Longrightarrow> P rest s"
  shows "P rest s"
proof (induction "length rest" arbitrary: rest s rule: less_induct)
  case (less rest s)
  show ?case
  proof (cases "take n rest = []")
    case True
    then show ?thesis by (rule assms(1))
  next
    case False
    then have lt: "length (drop n rest) < length rest" by (cases n) auto
    note IH = less [OF lt, of "s + int (length (take n rest))"]
    consider (raise) "u = None \<or> u = Some []"
      | (reject) url where "u = Some url" "url \<noteq> []"
          "\<not> (200 \<le> chunk_status w url s (s + int (length (take n rest)) - 1)
            \<and> chunk_status w url s (s + int (length (take n rest)) - 1) \<le> 204)"
      | (accept) url where "u = Some url" "url \<noteq> []"
          "200 \<le> chunk_status w url s (s + int (length (take n rest)) - 1)"
          "chunk_status w url s (s + int (length (take n rest)) - 1) \<le> 204"
      by (cases u) auto
    then show ?thesis
    proof cases
      case raise
      show ?thesis by (rule assms(2) [OF False raise])
    next
      case reject
      show ?thesis by (rule assms(3) [OF False reject])
    next
      case accept
      show ?thesis by (rule assms(4) [OF False accept IH])
    qed
  qed
qed

lemma transfer_loop_only_puts:
  "e \<in> set (fst (transfer_loop w u n fs rest s)) \<Longrightarrow>
   \<exists>url a b chunk. e = Request (Put_chunk url a b fs chunk) \<and> u = Some url"
proof (induction rest s rule: transfer_loop_cases [of n _ u w])
  case (eof rest s)
  then show ?case by (simp add: transfer_loop_end)
next
  case (no_url rest s)
  then show ?case by (auto simp: transfer_loop_no_url transfer_loop_empty_url)
next
  case (rejected rest s url)
  then show ?case by (simp add: transfer_loop_reject)
next
  case (accepted rest s url)
  then show ?case by (auto simp: transfer_loop_accept)
qed

lemma transfer_loop_url_no_raise:
  "url \<noteq> [] \<Longrightarrow> snd (transfer_loop w (Some url) n fs rest s) \<noteq> Put_raised"
proof (induction rest s rule: transfer_loop_cases [of n _ "Some url" w])
  case (eof rest s)
  then show ?case by (simp add: transfer_loop_end)
next
  case (no_url rest s)
  then show ?case by simp
next
  case (rejected rest s url')
  then show ?case by (simp add: transfer_loop_reject)
next
  case (accepted rest s url')
  then show ?case by (simp add: transfer_loop_accept)
qed

lemma transfer_loop_contiguous:
  "contiguous s (chunk_ranges (fst (transfer_loop w u n fs rest s)))
     (cursor_after s (chunk_ranges (fst (transfer_loop w u n fs rest s))))
   \<and> cursor_after s (chunk_ranges (fst (transfer_loop w u n fs rest s))) \<le> s + int (length rest)
   \<and> (snd (transfer_loop w u n fs rest s) = End_of_file \<and> 0 < n \<longrightarrow>
        cursor_after s (chunk_ranges (fst (transfer_loop w u n fs rest s))) = s + int (length rest))"
proof (induction rest s rule: transfer_loop_cases [of n _ u w])
  case (eof rest s)
  then show ?case by (auto simp: transfer_loop_end)
next
  case (no_url rest s)
  then show ?case by (auto simp: transfer_loop_no_url transfer_loop_empty_url)
next
  case (rejected rest s url)
  have "int (length (take n rest)) + int (length (drop n rest)) = int (length rest)"
    by (metis append_take_drop_id length_append of_nat_add)
  moreover have "0 < int (length (take n rest))" using rejected(1) by simp
  ultimately show ?case using rejected by (simp add: transfer_loop_reject)
next
  case (accepted rest s url)
  have "int (length (take n rest)) + int (length (drop n rest)) = int (length rest)"
    by (metis append_take_drop_id length_append of_nat_add)
  moreover have "0 < int (length (take n rest))" using accepted(1) by simp
  ultimately show ?case using accepted by (simp add: transfer_loop_accept)
qed

lemma chunk_ranges_append: "chunk_ranges (xs @ ys) = chunk_ranges xs @ chunk_ranges ys"
  by (induction xs rule: chunk_ranges.induct) auto

lemma contiguous_le: "contiguous s rs t \<Longrightarrow> s \<le> t"
proof (induction rs arbitrary: s)
  case Nil
  then show ?case by simp
next
  case (Cons r rs)
  obtain a b where r: "r = (a, b)" by (cases r)
  from Cons.prems r have c: "a = s" "a \<le> b" "contiguous (b + 1) rs t" by auto
  from Cons.IH [OF c(3)] c show ?case by simp
qed

lemma contiguous_covered: "contiguous s rs t \<Longrightarrow> covered rs = {s ..< t}"
proof (induction rs arbitrary: s)
  case Nil
  then show ?case by (simp add: covered_def)
next
  case (Cons r rs)
  obtain a b where r: "r = (a, b)" by (cases r)
  from Cons.prems r have c: "a = s" "a \<le> b" "contiguous (b + 1) rs t" by auto
  from Cons.IH [OF c(3)] have "covered rs = {b + 1 ..< t}" .
  moreover have "b + 1 \<le> t" using contiguous_le [OF c(3)] .
  ultimately show ?case using c r by (auto simp: covered_def)
qed

lemma contiguous_bounds:
  "contiguous s rs t \<Longrightarrow> r \<in> set rs \<Longrightarrow> s \<le> fst r \<and> fst r \<le> snd r \<and> snd r < t"
proof (induction rs arbitrary: s)
  case Nil
  then show ?case by simp
next
  case (Cons x rs)
  obtain a b where x: "x = (a, b)" by (cases x)
  from Cons.prems x have c: "a = s" "a \<le> b" "contiguous (b + 1) rs t" by auto
  show ?case
  proof (cases "r = x")
    case True
    then show ?thesis using c x contiguous_le [OF c(3)] by simp
  next
    case False
    then have "r \<in> set rs" using Cons.prems by simp
    from Cons.IH [OF c(3) this] show ?thesis using c by simp
  qed
qed

lemma contiguous_increasing:
  "contiguous s rs t \<Longrightarrow> sorted_wrt (\<lambda>r r'. snd r < fst r') rs"
proof (induction rs arbitrary: s)
  case Nil
  then show ?case by simp
next
  case (Cons x rs)
  obtain a b where x: "x = (a, b)" by (cases x)
  from Cons.prems x have c: "contiguous (b + 1) rs t" by auto
  have "\<forall>r \<in> set rs. b < fst r" using contiguous_bounds [OF c] by fastforce
  then show ?case using Cons.IH [OF c] x by simp
qed

lemma ranges_in_order_transfer_loop:
  "ranges_in_order (fst (transfer_loop w u n (int (length content)) content 0))
     (int (length content))"
proof -
  let ?rs = "chunk_ranges (fst (transfer_loop w u n (int (length content)) content 0))"
  from transfer_loop_contiguous [of 0 w u n "int (length content)" content]
  have c: "contiguous 0 ?rs (cursor_after 0 ?rs)"
    and le: "cursor_after 0 ?rs \<le> int (length content)" by simp_all
  have "\<forall>r \<in> set ?rs. 0 \<le> fst r \<and> fst r \<le> snd r \<and> snd r < int (length content)"
    using contiguous_bounds [OF c] le by fastforce
  then show ?thesis
    unfolding ranges_in_order_def
    using c le contiguous_covered [OF c] contiguous_increasing [OF c] by simp
qed

lemma ranges_in_order_no_chunks: "chunk_ranges evs = [] \<Longrightarrow> ranges_in_order evs (int n)"
  by (simp add: ranges_in_order_def covered_def)

lemma ranges_in_order_same:
  "chunk_ranges evs = chunk_ranges evs' \<Longrightarrow> ranges_in_order evs' n \<Longrightarrow> ranges_in_order evs n"
  by (simp add: ranges_in_order_def)

section \<open>Sequencing\<close>

lemma fst_seq:
  "fst (seq r f) = (case snd r of Inl a \<Rightarrow> fst r | Inr x \<Rightarrow> fst r @ fst (f x))"
  by (cases r) (simp add: seq_def split: sum.splits prod.splits)

lemma snd_seq:
  "snd (seq r f) = (case snd r of Inl a \<Rightarrow> Inl a | Inr x \<Rightarrow> snd (f x))"
  by (cases r) (simp add: seq_def split: sum.splits prod.splits)

lemma fst_say: "fst (say evs) = evs"
  by (simp add: say_def)

lemma snd_say: "snd (say evs) = Inr ()"
  by (simp add: say_def)

section \<open>Properties of the remote listing\<close>

lemma listing_events:
  "list_all is_listing_event (fst (get_remote_files_recursive base token item_path l))"
  "list_all is_listing_event (fst (list_items base token item_path items acc))"
proof (induction base token item_path l and base token item_path items acc
    rule: get_remote_files_recursive_list_items.induct)
  case (1 base access_token item_path st items)
  then show ?case by (simp add: fst_seq)
next
  case (2 base access_token item_path remote_files)
  then show ?case by simp
next
  case (3 base access_token item_path name ident is_file is_folder sub items remote_files)
  then show ?case by (simp add: fst_seq split: sum.splits)
qed

lemma raise_404: "raise_for_status 404"
  by (simp add: raise_for_status_def)

lemma listing_outcome:
  "if listing_fails l
   then snd (get_remote_files_recursive base token item_path l) = Inl (SystemExit 1)
   else \<not> isl (snd (get_remote_files_recursive base token item_path l))"
  "if items_fail items
   then snd (list_items base token item_path items acc) = Inl (SystemExit 1)
   else \<not> isl (snd (list_items base token item_path items acc))"
proof (induction base token item_path l and base token item_path items acc
    rule: get_remote_files_recursive_list_items.induct)
  case (1 base access_token item_path st items)
  show ?case
  proof (cases "raise_for_status st")
    case True
    then show ?thesis by (simp add: raise_404)
  next
    case False
    from 1 [OF False] show ?thesis using False by (simp add: snd_seq split: if_splits)
  qed
next
  case (2 base access_token item_path remote_files)
  then show ?case by simp
next
  case (3 base access_token item_path name ident is_file is_folder sub items remote_files)
  show ?case
  proof (cases is_file)
    case True
    then show ?thesis using 3(1) by simp
  next
    case nf: False
    show ?thesis
    proof (cases is_folder)
      case False
      then show ?thesis using nf 3(4) by simp
    next
      case True
      show ?thesis
      proof (cases "listing_fails sub")
        case True
        then show ?thesis using nf \<open>is_folder\<close> 3(2) by (simp add: snd_seq)
      next
        case False
        then have "\<not> isl (snd (get_remote_files_recursive base access_token
            (path_join item_path name) sub))"
          using nf \<open>is_folder\<close> 3(2) by simp
        then obtain found where
          f: "snd (get_remote_files_recursive base access_token (path_join item_path name) sub)
                = Inr found"
          by (cases "snd (get_remote_files_recursive base access_token
            (path_join item_path name) sub)") auto
        from 3(3) [OF nf \<open>is_folder\<close>, of found]
        show ?thesis using nf \<open>is_folder\<close> False f by (simp add: snd_seq)
      qed
    qed
  qed
qed

lemma listing_fails_exit:
  "listing_fails l \<Longrightarrow>
   snd (get_remote_files_recursive base token item_path l) = Inl (SystemExit 1)"
  using listing_outcome(1) [of l base token item_path] by simp

lemma listing_ok_result:
  "\<not> listing_fails l \<Longrightarrow>
   \<exists>m. snd (get_remote_files_recursive base token item_path l) = Inr m"
  using listing_outcome(1) [of l base token item_path]
  by (cases "snd (get_remote_files_recursive base token item_path l)") auto

lemma listing_failure_last:
  "listing_fails l \<Longrightarrow>
     \<exists>evs p st. fst (get_remote_files_recursive base token item_path l)
        = evs @ [Print (Error_listing_remote_files p st)] \<and> st \<noteq> 404"
  "items_fail items \<Longrightarrow>
     \<exists>evs p st. fst (list_items base token item_path items acc)
        = evs @ [Print (Error_listing_remote_files p st)] \<and> st \<noteq> 404"
proof (induction base token item_path l and base token item_path items acc
    rule: get_remote_files_recursive_list_items.induct)
  case (1 base access_token item_path st items)
  show ?case
  proof (cases "raise_for_status st")
    case True
    then have "st \<noteq> 404" using 1(2) by simp
    then have "fst (get_remote_files_recursive base access_token item_path (Listing st items))
      = [Request (Get_children access_token (api_path base item_path))]
        @ [Print (Error_listing_remote_files item_path st)]"
      using True by simp
    then show ?thesis using \<open>st \<noteq> 404\<close> by blast
  next
    case False
    then have "items_fail items" using 1(2) by simp
    from 1(1) [OF False this] obtain evs p st' where
      e: "fst (list_items base access_token item_path items [])
        = evs @ [Print (Error_listing_remote_files p st')]" "st' \<noteq> 404"
      by blast
    have "fst (get_remote_files_recursive base access_token item_path (Listing st items))
      = (Request (Get_children access_token (api_path base item_path)) # evs)
        @ [Print (Error_listing_remote_files p st')]"
      using False e by (simp add: fst_seq)
    then show ?thesis using e(2) by blast
  qed
next
  case (2 base access_token item_path remote_files)
  then show ?case by simp
next
  case (3 base access_token item_path name ident is_file is_folder sub items remote_files)
  show ?case
  proof (cases is_file)
    case True
    then show ?thesis using 3(1) 3(5) by simp
  next
    case nf: False
    show ?thesis
    proof (cases is_folder)
      case False
      then show ?thesis using nf 3(4) 3(5) by simp
    next
      case True
      show ?thesis
      proof (cases "listing_fails sub")
        case True
        from 3(2) [OF nf \<open>is_folder\<close> True] obtain evs p st where
          e: "fst (get_remote_files_recursive base access_token (path_join item_path name) sub)
            = evs @ [Print (Error_listing_remote_files p st)]" "st \<noteq> 404" by blast
        have "snd (get_remote_files_recursive base access_token (path_join item_path name) sub)
            = Inl (SystemExit 1)"
          by (rule listing_fails_exit [OF True])
        then have "fst (list_items base access_token item_path
            (Item name ident is_file is_folder sub # items) remote_files)
            = evs @ [Print (Error_listing_remote_files p st)]"
          using nf \<open>is_folder\<close> e by (simp add: fst_seq)
        then show ?thesis using e(2) by blast
      next
        case False
        then obtain found where
          f: "snd (get_remote_files_recursive base access_token (path_join item_path name) sub)
                = Inr found"
          using listing_ok_result by blast
        have "items_fail items" using 3(5) nf \<open>is_folder\<close> False by simp
        from 3(3) [OF nf \<open>is_folder\<close> this, of found] obtain evs p st where
          e: "fst (list_items base access_token item_path items (dict_update remote_files found))
            = evs @ [Print (Error_listing_remote_files p st)]" "st \<noteq> 404" by blast
        have "fst (list_items base access_token item_path
            (Item name ident is_file is_folder sub # items) remote_files)
            = (fst (get_remote_files_recursive base access_token (path_join item_path name) sub)
                @ evs) @ [Print (Error_listing_remote_files p st)]"
          using nf \<open>is_folder\<close> e f by (simp add: fst_seq)
        then show ?thesis using e(2) by blast
      qed
    qed
  qed
qed

section \<open>Properties of the upload of one file\<close>

lemma upload_chunk_ranges:
  assumes "file_content w local_file_path = Some content"
  shows "chunk_ranges (fst (upload_file_to_sharepoint w token local_file_path dest)) =
     (if session_status w dest \<noteq> 200 then []
      else chunk_ranges (fst (transfer_loop w (session_upload_url w dest) (4 * 1024 * 1024)
                                (int (length content)) content 0)))"
  using assms
  by (simp add: upload_file_to_sharepoint_def chunk_ranges_append
      split: prod.splits loop_end.splits)

lemma su_upload_chunk_ranges:
  assumes "file_content w local_file_path = Some content"
  shows "chunk_ranges (su_upload_file_to_sharepoint w token local_file_path dest) =
     (if session_status w dest \<noteq> 200 \<or> session_upload_url w dest = None
         \<or> session_upload_url w dest = Some [] then []
      else chunk_ranges (fst (transfer_loop w (session_upload_url w dest) (1 * 1024 * 1024)
                                (int (length content)) content 0)))"
  using assms
  by (simp add: su_upload_file_to_sharepoint_def chunk_ranges_append
      split: prod.splits loop_end.splits)

lemma transfer_loop_complete:
  assumes "0 < n" and "snd (transfer_loop w u n fs rest s) = End_of_file"
  shows "contiguous s (chunk_ranges (fst (transfer_loop w u n fs rest s))) (s + int (length rest))"
proof -
  note all = transfer_loop_contiguous [of s w u n fs rest]
  have c: "contiguous s (chunk_ranges (fst (transfer_loop w u n fs rest s)))
             (cursor_after s (chunk_ranges (fst (transfer_loop w u n fs rest s))))"
    by (rule all [THEN conjunct1])
  have "snd (transfer_loop w u n fs rest s) = End_of_file \<and> 0 < n \<longrightarrow>
      cursor_after s (chunk_ranges (fst (transfer_loop w u n fs rest s))) = s + int (length rest)"
    by (rule all [THEN conjunct2, THEN conjunct2])
  then have eq: "cursor_after s (chunk_ranges (fst (transfer_loop w u n fs rest s)))
             = s + int (length rest)"
    using assms by blast
  from c show ?thesis by (simp only: eq)
qed

lemma upload_file_events:
  assumes "file_content w local_file_path = Some content"
    and "session_status w dest = 200"
    and "transfer_loop w (session_upload_url w dest) (4 * 1024 * 1024)
           (int (length content)) content 0 = (evs, e)"
  shows "upload_file_to_sharepoint w token local_file_path dest =
    (case e of
       End_of_file \<Rightarrow>
         (Request (Create_upload_session token dest) # evs @
            [Print (Successfully_uploaded dest)], Inr ())
     | Rejected st \<Rightarrow>
         (Request (Create_upload_session token dest) # evs @
            [Print (Error_uploading_chunk dest st)], Inr ())
     | Put_raised \<Rightarrow>
         (Request (Create_upload_session token dest) # evs, Inl (Uncaught ''MissingSchema'')))"
  using assms by (simp add: upload_file_to_sharepoint_def)

lemma su_upload_file_events:
  assumes "file_content w local_file_path = Some content"
    and "session_status w dest = 200"
    and "session_upload_url w dest = Some url" and "url \<noteq> []"
    and "transfer_loop w (Some url) (1 * 1024 * 1024)
           (int (length content)) content 0 = (evs, e)"
  shows "su_upload_file_to_sharepoint w token local_file_path dest =
    (case e of
       Rejected st \<Rightarrow>
         Request (Create_upload_session token dest) # evs @
           [Print (Error_uploading_chunk dest st)]
     | _ \<Rightarrow>
         Request (Create_upload_session token dest) # evs @
           [Print (Successfully_uploaded dest)])"
  using assms by (simp add: su_upload_file_to_sharepoint_def)

lemma upload_success_end:
  assumes "file_content w local_file_path = Some content"
    and "last (fst (upload_file_to_sharepoint w token local_file_path dest))
           = Print (Successfully_uploaded dest)"
  shows "session_status w dest = 200
    \<and> snd (transfer_loop w (session_upload_url w dest) (4 * 1024 * 1024)
             (int (length content)) content 0) = End_of_file"
proof -
  obtain evs e where L: "transfer_loop w (session_upload_url w dest) (4 * 1024 * 1024)
      (int (length content)) content 0 = (evs, e)"
    by (cases "transfer_loop w (session_upload_url w dest) (4 * 1024 * 1024)
      (int (length content)) content 0")
  have st: "session_status w dest = 200"
    using assms by (auto simp: upload_file_to_sharepoint_def split: if_splits)
  note ev = upload_file_events [OF assms(1) st L, of token]
  have "e = End_of_file"
  proof (cases e)
    case End_of_file
    then show ?thesis .
  next
    case (Rejected st')
    then show ?thesis using assms(2) ev by simp
  next
    case Put_raised
    show ?thesis
    proof (cases "evs = []")
      case True
      then show ?thesis using assms(2) ev Put_raised by simp
    next
      case False
      then have "last evs \<in> set (fst (transfer_loop w (session_upload_url w dest)
          (4 * 1024 * 1024) (int (length content)) content 0))"
        using L by simp
      from transfer_loop_only_puts [OF this]
      show ?thesis using assms(2) ev Put_raised False by auto
    qed
  qed
  with st L show ?thesis by simp
qed

lemma su_upload_success_end:
  assumes "file_content w local_file_path = Some content"
    and "last (su_upload_file_to_sharepoint w token local_file_path dest)
           = Print (Successfully_uploaded dest)"
  shows "session_status w dest = 200
    \<and> (\<exists>url. session_upload_url w dest = Some url \<and> url \<noteq> [])
    \<and> snd (transfer_loop w (session_upload_url w dest) (1 * 1024 * 1024)
             (int (length content)) content 0) = End_of_file"
proof -
  have st: "session_status w dest = 200"
    using assms by (auto simp: su_upload_file_to_sharepoint_def split: if_splits)
  have "\<exists>url. session_upload_url w dest = Some url \<and> url \<noteq> []"
    using assms st by (auto simp: su_upload_file_to_sharepoint_def split: if_splits)
  then obtain url where url: "session_upload_url w dest = Some url" "url \<noteq> []" by blast
  obtain evs e where L: "transfer_loop w (Some url) (1 * 1024 * 1024)
      (int (length content)) content 0 = (evs, e)"
    by (cases "transfer_loop w (Some url) (1 * 1024 * 1024)
      (int (length content)) content 0")
  note ev = su_upload_file_events [OF assms(1) st url L, of token]
  have "e \<noteq> Put_raised"
    using transfer_loop_url_no_raise [OF url(2), of w "1 * 1024 * 1024"
        "int (length content)" content 0] L by simp
  moreover have "e \<noteq> Rejected st'" for st'
    using assms(2) ev by auto
  ultimately have "e = End_of_file" by (cases e) auto
  with st url L show ?thesis by simp
qed

lemma transfer_loop_all_accepted:
  assumes "url \<noteq> []"
    and "\<forall>a b. 200 \<le> chunk_status w url a b \<and> chunk_status w url a b \<le> 204"
  shows "snd (transfer_loop w (Some url) n fs rest s) = End_of_file"
proof (induction rest s rule: transfer_loop_cases [of n _ "Some url" w])
  case (eof rest s)
  then show ?case by (simp add: transfer_loop_end)
next
  case (no_url rest s)
  then show ?case using assms(1) by simp
next
  case (rejected rest s url')
  then show ?case using assms(2) by simp
next
  case (accepted rest s url')
  then show ?case by (simp add: transfer_loop_accept)
qed

lemma upload_ranges_in_order:
  assumes "file_content w local_file_path = Some content"
  shows "ranges_in_order (fst (upload_file_to_sharepoint w token local_file_path dest))
           (int (length content))"
proof (cases "session_status w dest \<noteq> 200")
  case True
  then have "chunk_ranges (fst (upload_file_to_sharepoint w token local_file_path dest)) = []"
    using upload_chunk_ranges [OF assms, of token dest] by simp
  then show ?thesis by (rule ranges_in_order_no_chunks)
next
  case False
  then have "chunk_ranges (fst (upload_file_to_sharepoint w token local_file_path dest))
      = chunk_ranges (fst (transfer_loop w (session_upload_url w dest) (4 * 1024 * 1024)
          (int (length content)) content 0))"
    using upload_chunk_ranges [OF assms, of token dest] by simp
  from ranges_in_order_same [OF this ranges_in_order_transfer_loop] show ?thesis .
qed

lemma upload_success_covers:
  assumes "file_content w local_file_path = Some content"
    and "last (fst (upload_file_to_sharepoint w token local_file_path dest))
            = Print (Successfully_uploaded dest)"
  shows "covered (chunk_ranges (fst (upload_file_to_sharepoint w token local_file_path dest)))
          = {0 ..< int (length content)}"
proof -
  from upload_success_end [OF assms]
  have st: "session_status w dest = 200"
    and e: "snd (transfer_loop w (session_upload_url w dest) (4 * 1024 * 1024)
              (int (length content)) content 0) = End_of_file" by blast+
  have "(0::nat) < 4 * 1024 * 1024" by simp
  from transfer_loop_complete [OF this e]
  have "contiguous 0 (chunk_ranges (fst (transfer_loop w (session_upload_url w dest)
      (4 * 1024 * 1024) (int (length content)) content 0))) (int (length content))" by simp
  from contiguous_covered [OF this]
  have "covered (chunk_ranges (fst (transfer_loop w (session_upload_url w dest)
      (4 * 1024 * 1024) (int (length content)) content 0))) = {0 ..< int (length content)}" .
  moreover have "chunk_ranges (fst (upload_file_to_sharepoint w token local_file_path dest))
      = chunk_ranges (fst (transfer_loop w (session_upload_url w dest) (4 * 1024 * 1024)
          (int (length content)) content 0))"
    using upload_chunk_ranges [OF assms(1), of token dest] st by simp
  ultimately show ?thesis by (simp only:)
qed

lemma su_upload_ranges_in_order:
  assumes "file_content w local_file_path = Some content"
  shows "ranges_in_order (su_upload_file_to_sharepoint w token local_file_path dest)
           (int (length content))"
proof (cases "session_status w dest \<noteq> 200 \<or> session_upload_url w dest = None
         \<or> session_upload_url w dest = Some []")
  case True
  then have "chunk_ranges (su_upload_file_to_sharepoint w token local_file_path dest) = []"
    using su_upload_chunk_ranges [OF assms, of token dest] by simp
  then show ?thesis by (rule ranges_in_order_no_chunks)
next
  case False
  have "chunk_ranges (su_upload_file_to_sharepoint w token local_file_path dest)
      = chunk_ranges (fst (transfer_loop w (session_upload_url w dest) (1 * 1024 * 1024)
          (int (length content)) content 0))"
    by (subst su_upload_chunk_ranges [OF assms, of token dest]) (simp only: False if_False)
  from ranges_in_order_same [OF this ranges_in_order_transfer_loop] show ?thesis .
qed

lemma su_upload_success_covers:
  assumes "file_content w local_file_path = Some content"
    and "last (su_upload_file_to_sharepoint w token local_file_path dest)
            = Print (Successfully_uploaded dest)"
  shows "covered (chunk_ranges (su_upload_file_to_sharepoint w token local_file_path dest))
          = {0 ..< int (length content)}"
proof -
  from su_upload_success_end [OF assms]
  have st: "session_status w dest = 200"
    and url: "\<exists>url. session_upload_url w dest = Some url \<and> url \<noteq> []"
    and e: "snd (transfer_loop w (session_upload_url w dest) (1 * 1024 * 1024)
              (int (length content)) content 0) = End_of_file" by blast+
  have "(0::nat) < 1 * 1024 * 1024" by simp
  from transfer_loop_complete [OF this e]
  have "contiguous 0 (chunk_ranges (fst (transfer_loop w (session_upload_url w dest)
      (1 * 1024 * 1024) (int (length content)) content 0))) (int (length content))" by simp
  from contiguous_covered [OF this]
  have "covered (chunk_ranges (fst (transfer_loop w (session_upload_url w dest)
      (1 * 1024 * 1024) (int (length content)) content 0))) = {0 ..< int (length content)}" .
  moreover have "session_status w dest \<noteq> 200 \<or> session_upload_url w dest = None
         \<or> session_upload_url w dest = Some [] \<longleftrightarrow> False"
    using st url by auto
  then have "chunk_ranges (su_upload_file_to_sharepoint w token local_file_path dest)
      = chunk_ranges (fst (transfer_loop w (session_upload_url w dest) (1 * 1024 * 1024)
          (int (length content)) content 0))"
    by (subst su_upload_chunk_ranges [OF assms(1), of token dest]) (simp only: if_False)
  ultimately show ?thesis by (simp only:)
qed

lemma upload_accepted_covers:
  assumes "file_content w local_file_path = Some content"
    and "session_status w dest = 200"
    and "session_upload_url w dest = Some url" and "url \<noteq> []"
    and "\<forall>a b. 200 \<le> chunk_status w url a b \<and> chunk_status w url a b \<le> 204"
  shows "covered (chunk_ranges (fst (upload_file_to_sharepoint w token local_file_path dest)))
          = {0 ..< int (length content)}"
proof -
  have e: "snd (transfer_loop w (Some url) (4 * 1024 * 1024)
              (int (length content)) content 0) = End_of_file"
    by (rule transfer_loop_all_accepted [OF assms(4,5)])
  have "(0::nat) < 4 * 1024 * 1024" by simp
  from transfer_loop_complete [OF this e]
  have "contiguous 0 (chunk_ranges (fst (transfer_loop w (Some url)
      (4 * 1024 * 1024) (int (length content)) content 0))) (int (length content))" by simp
  from contiguous_covered [OF this]
  have "covered (chunk_ranges (fst (transfer_loop w (Some url)
      (4 * 1024 * 1024) (int (length content)) content 0))) = {0 ..< int (length content)}" .
  moreover have "chunk_ranges (fst (upload_file_to_sharepoint w token local_file_path dest))
      = chunk_ranges (fst (transfer_loop w (Some url) (4 * 1024 * 1024)
          (int (length content)) content 0))"
    using upload_chunk_ranges [OF assms(1), of token dest] assms(2,3) by simp
  ultimately show ?thesis by (simp only:)
qed

lemma su_upload_accepted_covers:
  assumes "file_content w local_file_path = Some content"
    and "session_status w dest = 200"
    and "session_upload_url w dest = Some url" and "url \<noteq> []"
    and "\<forall>a b. 200 \<le> chunk_status w url a b \<and> chunk_status w url a b \<le> 204"
  shows "covered (chunk_ranges (su_upload_file_to_sharepoint w token local_file_path dest))
          = {0 ..< int (length content)}"
proof -
  have e: "snd (transfer_loop w (Some url) (1 * 1024 * 1024)
              (int (length content)) content 0) = End_of_file"
    by (rule transfer_loop_all_accepted [OF assms(4,5)])
  have "(0::nat) < 1 * 1024 * 1024" by simp
  from transfer_loop_complete [OF this e]
  have "contiguous 0 (chunk_ranges (fst (transfer_loop w (Some url)
      (1 * 1024 * 1024) (int (length content)) content 0))) (int (length content))" by simp
  from contiguous_covered [OF this]
  have "covered (chunk_ranges (fst (transfer_loop w (Some url)
      (1 * 1024 * 1024) (int (length content)) content 0))) = {0 ..< int (length content)}" .
  moreover have "chunk_ranges (su_upload_file_to_sharepoint w token local_file_path dest)
      = chunk_ranges (fst (transfer_loop w (Some url) (1 * 1024 * 1024)
          (int (length content)) content 0))"
    using su_upload_chunk_ranges [OF assms(1), of token dest] assms(2,3,4) by simp
  ultimately show ?thesis by (simp only:)
qed

section \<open>The main block, step by step\<close>

lemma main_sync_run:
  assumes "sync_deletions cfg"
    and "get_access_token (auth_result w) = (aevs, token)"
    and "get_remote_files_recursive (sharepoint_base_folder cfg) token [] (remote_root w)
           = (levs, Inr m)"
    and "deletion_step w token m (scan_local w) = (devs, Inr ())"
    and "upload_files cfg w token (sorted_list_of_set (scan_local w)) = (uevs, Inr ())"
  shows "main cfg w =
     ([Print Gathering_local_file_list, Print Authenticating] @ aevs @
      [Print Sync_deletions_enabled] @ levs @ devs @ [Print Starting_file_uploads] @ uevs @
      [Print Process_finished], Inr ())"
  using assms by (simp add: main_def seq_def say_def)

lemma delete_requests_append:
  "delete_requests (xs @ ys) = delete_requests xs @ delete_requests ys"
  by (induction xs rule: delete_requests.induct) auto

lemma session_requests_append:
  "session_requests (xs @ ys) = session_requests xs @ session_requests ys"
  by (induction xs rule: session_requests.induct) auto

lemma deleted_paths_append:
  "deleted_paths (xs @ ys) = deleted_paths xs @ deleted_paths ys"
  by (induction xs rule: deleted_paths.induct) auto

lemma listing_events_send_nothing_else:
  "list_all is_listing_event evs \<Longrightarrow>
   delete_requests evs = [] \<and> session_requests evs = [] \<and> chunk_ranges evs = []
   \<and> deleted_paths evs = []"
proof (induction evs)
  case Nil
  then show ?case by simp
next
  case (Cons e evs)
  then have "is_listing_event e" and rest: "delete_requests evs = [] \<and> session_requests evs = []
      \<and> chunk_ranges evs = [] \<and> deleted_paths evs = []" by simp_all
  from this(1) show ?case using rest by (cases e rule: is_listing_event.cases) simp_all
qed

lemma get_access_token_events:
  "fst (get_access_token result) = [Print Access_token_acquired]
   \<or> fst (get_access_token result) = [Print Error_acquiring_access_token]"
  by (simp add: get_access_token_def)

lemma main_listing_exit:
  assumes "sync_deletions cfg"
    and "snd (get_remote_files_recursive (sharepoint_base_folder cfg)
           (snd (get_access_token (auth_result w))) [] (remote_root w)) = Inl a"
  shows "main cfg w =
     ([Print Gathering_local_file_list, Print Authenticating]
        @ fst (get_access_token (auth_result w)) @ [Print Sync_deletions_enabled]
        @ fst (get_remote_files_recursive (sharepoint_base_folder cfg)
           (snd (get_access_token (auth_result w))) [] (remote_root w)), Inl a)"
proof (rule prod_eqI)
  show "fst (main cfg w) = fst ([Print Gathering_local_file_list, Print Authenticating]
        @ fst (get_access_token (auth_result w)) @ [Print Sync_deletions_enabled]
        @ fst (get_remote_files_recursive (sharepoint_base_folder cfg)
           (snd (get_access_token (auth_result w))) [] (remote_root w)), Inl a :: abort + unit)"
    using assms by (simp add: main_def fst_seq snd_seq fst_say snd_say)
  show "snd (main cfg w) = snd ([Print Gathering_local_file_list, Print Authenticating]
        @ fst (get_access_token (auth_result w)) @ [Print Sync_deletions_enabled]
        @ fst (get_remote_files_recursive (sharepoint_base_folder cfg)
           (snd (get_access_token (auth_result w))) [] (remote_root w)), Inl a :: abort + unit)"
    using assms by (simp add: main_def fst_seq snd_seq fst_say snd_say)
qed

lemma delete_files_run:
  "set paths \<subseteq> set (map fst m) \<Longrightarrow>
   snd (delete_files w token m paths) = Inr ()
   \<and> deleted_paths (fst (delete_files w token m paths)) = paths
   \<and> delete_requests (fst (delete_files w token m paths)) = map (\<lambda>p. the (map_of m p)) paths"
proof (induction paths)
  case Nil
  then show ?case by simp
next
  case (Cons p paths)
  then have "p \<in> fst ` set m" by simp
  then obtain ident where i: "map_of m p = Some ident"
    by (metis map_of_eq_None_iff not_None_eq)
  from Cons have "set paths \<subseteq> set (map fst m)" by simp
  from Cons.IH [OF this] show ?case
    using i by (simp add: fst_seq snd_seq fst_say snd_say delete_sharepoint_item_def)
qed

lemma deletion_step_run:
  "snd (deletion_step w token m local) = Inr ()
   \<and> deleted_paths (fst (deletion_step w token m local))
       = sorted_list_of_set (set (map fst m) - local)
   \<and> delete_requests (fst (deletion_step w token m local))
       = map (\<lambda>p. the (map_of m p)) (sorted_list_of_set (set (map fst m) - local))"
proof -
  have "set (sorted_list_of_set (set (map fst m) - local)) \<subseteq> set (map fst m)"
    by auto
  note d = delete_files_run [OF this, of w token]
  show ?thesis
  proof (cases "set (map fst m) - local = {}")
    case True
    show ?thesis
      unfolding deletion_step_def files_to_delete_def True by (simp add: fst_say snd_say)
  next
    case False
    then show ?thesis
      using d
      by (simp add: deletion_step_def files_to_delete_def fst_seq snd_seq fst_say snd_say
          del: Diff_eq_empty_iff)
  qed
qed

lemma upload_events_send_nothing_else:
  "list_all is_upload_event evs \<Longrightarrow> delete_requests evs = [] \<and> deleted_paths evs = []"
proof (induction evs)
  case Nil
  then show ?case by simp
next
  case (Cons e evs)
  then have "is_upload_event e" and rest: "delete_requests evs = [] \<and> deleted_paths evs = []"
    by simp_all
  from this(1) show ?case using rest by (cases e rule: is_upload_event.cases) simp_all
qed

lemma transfer_loop_upload_events:
  "list_all is_upload_event (fst (transfer_loop w u n fs rest s))"
proof -
  have "\<forall>e \<in> set (fst (transfer_loop w u n fs rest s)). is_upload_event e"
  proof
    fix e assume "e \<in> set (fst (transfer_loop w u n fs rest s))"
    from transfer_loop_only_puts [OF this] show "is_upload_event e" by auto
  qed
  then show ?thesis by (simp add: list_all_iff)
qed

lemma upload_file_upload_events:
  "list_all is_upload_event (fst (upload_file_to_sharepoint w token local_file_path dest))"
  using transfer_loop_upload_events [of w "session_upload_url w dest" "4 * 1024 * 1024"
      "int (length (the (file_content w local_file_path)))"
      "the (file_content w local_file_path)" 0]
  by (auto simp: upload_file_to_sharepoint_def split: option.splits prod.splits loop_end.splits)

lemma upload_files_upload_events:
  "list_all is_upload_event (fst (upload_files cfg w token paths))"
proof (induction paths)
  case Nil
  then show ?case by simp
next
  case (Cons p paths)
  then show ?case by (simp add: fst_seq upload_file_upload_events split: sum.splits)
qed

lemma main_sync_events:
  assumes "sync_deletions cfg"
    and "snd (get_remote_files_recursive (sharepoint_base_folder cfg)
           (snd (get_access_token (auth_result w))) [] (remote_root w)) = Inr m"
  shows "fst (main cfg w) =
     [Print Gathering_local_file_list, Print Authenticating]
        @ fst (get_access_token (auth_result w)) @ [Print Sync_deletions_enabled]
        @ fst (get_remote_files_recursive (sharepoint_base_folder cfg)
           (snd (get_access_token (auth_result w))) [] (remote_root w))
        @ fst (deletion_step w (snd (get_access_token (auth_result w))) m (scan_local w))
        @ [Print Starting_file_uploads]
        @ fst (upload_files cfg w (snd (get_access_token (auth_result w)))
            (sorted_list_of_set (scan_local w)))
        @ (case snd (upload_files cfg w (snd (get_access_token (auth_result w)))
            (sorted_list_of_set (scan_local w))) of Inl a \<Rightarrow> [] | Inr x \<Rightarrow> [Print Process_finished])"
  using assms deletion_step_run [of w "snd (get_access_token (auth_result w))" m "scan_local w"]
  by (simp add: main_def fst_seq snd_seq fst_say snd_say split: sum.splits)







section \<open>The example inputs, evaluated\<close>

lemma example_world_fields:
  "gitignore example_world = Some example_rules"
  "local_tree example_world = Some example_tree"
  "local_entries example_world = example_tree"
  "file_content example_world p =
     (if p = ''data/a.txt'' then Some [1, 2, 3] else if p = ''data/empty'' then Some []
      else if p = ''data/sub/b.txt'' then Some [7] else None)"
  "auth_result example_world k = (if k = ''access_token'' then Some ''tok'' else None)"
  "remote_root example_world = Listing 200
     [Item ''a.txt'' ''id-a'' True False (Listing 200 []),
      Item ''old'' ''id-old'' False True
        (Listing 200 [Item ''stale.txt'' ''id-stale'' True False (Listing 200 [])])]"
  "delete_status example_world i = 204"
  "session_status example_world p = 200"
  "session_upload_url example_world p = Some (''https://upload/'' @ p)"
  "chunk_status example_world url a b = 202"
  by (simp_all add: example_world_def local_entries_def)

lemma example_config_fields:
  "tenant_id example_config = ''contoso''"
  "local_directory_path example_config = ''data''"
  "sharepoint_base_folder example_config = ''Docs''"
  "sync_deletions example_config = True"
  by (simp_all add: example_config_def)

lemma example_world_file_gone_fields:
  "gitignore example_world_file_gone = gitignore example_world"
  "local_tree example_world_file_gone = local_tree example_world"
  "local_entries example_world_file_gone = local_entries example_world"
  "file_content example_world_file_gone p =
     (if p = ''data/a.txt'' then None else file_content example_world p)"
  "auth_result example_world_file_gone = auth_result example_world"
  "remote_root example_world_file_gone = remote_root example_world"
  "delete_status example_world_file_gone = delete_status example_world"
  "session_status example_world_file_gone = session_status example_world"
  "session_upload_url example_world_file_gone = session_upload_url example_world"
  "chunk_status example_world_file_gone = chunk_status example_world"
  by (simp_all add: example_world_file_gone_def local_entries_def)

lemma example_world_no_token_fields:
  "gitignore example_world_no_token = gitignore example_world"
  "local_tree example_world_no_token = local_tree example_world"
  "local_entries example_world_no_token = local_entries example_world"
  "file_content example_world_no_token = file_content example_world"
  "auth_result example_world_no_token k = None"
  "remote_root example_world_no_token = remote_root example_world"
  "delete_status example_world_no_token = delete_status example_world"
  "session_status example_world_no_token p = 401"
  "session_upload_url example_world_no_token = session_upload_url example_world"
  "chunk_status example_world_no_token = chunk_status example_world"
  by (simp_all add: example_world_no_token_def local_entries_def)

lemma example_upload_a:
  "upload_file_to_sharepoint example_world (Some ''tok'') ''data/a.txt'' ''Docs/a.txt'' =
     ([Request (Create_upload_session (Some ''tok'') ''Docs/a.txt''),
       Request (Put_chunk ''https://upload/Docs/a.txt'' 0 2 3 [1, 2, 3]),
       Print (Successfully_uploaded ''Docs/a.txt'')], Inr ())"
  by (simp add: upload_file_to_sharepoint_def example_world_fields transfer_loop_accept
      transfer_loop_end)

lemma example_su_upload_a:
  "su_upload_file_to_sharepoint example_world (Some ''tok'') ''data/a.txt'' ''Docs/a.txt'' =
     [Request (Create_upload_session (Some ''tok'') ''Docs/a.txt''),
      Request (Put_chunk ''https://upload/Docs/a.txt'' 0 2 3 [1, 2, 3]),
      Print (Successfully_uploaded ''Docs/a.txt'')]"
  by (simp add: su_upload_file_to_sharepoint_def example_world_fields transfer_loop_accept
      transfer_loop_end)

lemma walk_example:
  "walk (Some example_rules) [] example_tree =
    [([], [''a.txt'', ''empty'', ''notes.log'']), ([''sub''], [''b.txt''])]"
  by (simp add: example_tree_def example_rules_def walk.simps(1) prune_dirs_def
      path_join_def relpath_dir_def)

lemma local_file_list_example:
  "local_file_list (Some example_rules) example_tree = [''a.txt'', ''empty'', ''sub/b.txt'']"
  by (simp add: local_file_list_def walk_example kept_files_def relpath_file_def
      example_rules_def)

lemma scan_local_example: "scan_local example_world = {''a.txt'', ''empty'', ''sub/b.txt''}"
  by (simp add: scan_local_def local_files_def example_world_fields local_file_list_example)

lemma sorted_example:
  "sorted_list_of_set {''a.txt'', ''empty'', ''sub/b.txt''} = [''a.txt'', ''empty'', ''sub/b.txt'']"
  by code_simp

lemma example_world_large_fields:
  "file_content example_world_large p =
     (if p = ''data/big.bin'' then Some large_content else None)"
  "session_status example_world_large p = 200"
  "session_upload_url example_world_large p = Some (''https://upload/'' @ p)"
  "chunk_status example_world_large url a b = 202"
  by (simp_all add: example_world_large_def example_world_def)

lemma length_large_content: "length large_content = 8388610"
  by (simp add: large_content_def)

lemma example_upload_large:
  "chunk_ranges (fst (upload_file_to_sharepoint example_world_large (Some ''tok'')
      ''data/big.bin'' ''Docs/big.bin'')) =
     [(0, 4194303), (4194304, 8388607), (8388608, 8388609)]"
  by (simp add: upload_file_to_sharepoint_def example_world_large_fields large_content_def
      transfer_loop_accept transfer_loop_end split: prod.splits loop_end.splits)

lemma example_su_upload_large:
  "chunk_ranges (su_upload_file_to_sharepoint example_world_large (Some ''tok'')
      ''data/big.bin'' ''Docs/big.bin'') =
     [(0, 1048575), (1048576, 2097151), (2097152, 3145727), (3145728, 4194303),
      (4194304, 5242879), (5242880, 6291455), (6291456, 7340031), (7340032, 8388607),
      (8388608, 8388609)]"
  by (simp add: su_upload_file_to_sharepoint_def example_world_large_fields large_content_def
      transfer_loop_accept transfer_loop_end split: prod.splits loop_end.splits)

lemma example_world_nested_404_fields:
  "gitignore example_world_nested_404 = gitignore example_world"
  "local_tree example_world_nested_404 = local_tree example_world"
  "local_entries example_world_nested_404 = local_entries example_world"
  "file_content example_world_nested_404 = file_content example_world"
  "auth_result example_world_nested_404 = auth_result example_world"
  "remote_root example_world_nested_404 = Listing 200
       [Item ''a.txt'' ''id-a'' True False (Listing 200 []),
        Item ''gone'' ''id-gone'' False True (Listing 404 []),
        Item ''stale.txt'' ''id-stale'' True False (Listing 200 [])]"
  "delete_status example_world_nested_404 = delete_status example_world"
  "session_status example_world_nested_404 = session_status example_world"
  "session_upload_url example_world_nested_404 = session_upload_url example_world"
  "chunk_status example_world_nested_404 = chunk_status example_world"
  by (simp_all add: example_world_nested_404_def local_entries_def)

lemma listing_nested_404:
  "get_remote_files_recursive ''Docs'' (Some ''tok'') [] (remote_root example_world_nested_404) =
     ([Request (Get_children (Some ''tok'') ''root:/Docs''),
       Request (Get_children (Some ''tok'') ''root:/Docs/gone''),
       Print (Folder_not_found ''Docs'')],
      Inr [(''a.txt'', ''id-a''), (''stale.txt'', ''id-stale'')])"
  by (simp add: example_world_nested_404_fields raise_for_status_def seq_def api_path_def
      path_join_def dict_update_def)

lemma scan_nested: "scan_local example_world_nested_404 = {''a.txt'', ''empty'', ''sub/b.txt''}"
  by (simp add: scan_local_def local_files_def example_world_nested_404_fields
      example_world_fields local_file_list_example)

lemma to_delete_nested:
  "files_to_delete [(''a.txt'', ''id-a''), (''stale.txt'', ''id-stale'')]
     {''a.txt'', ''empty'', ''sub/b.txt''} = {''stale.txt''}"
  by (auto simp: files_to_delete_def)

lemma deletion_nested:
  "deletion_step example_world_nested_404 (Some ''tok'')
      [(''a.txt'', ''id-a''), (''stale.txt'', ''id-stale'')] {''a.txt'', ''empty'', ''sub/b.txt''} =
    ([Print (Found_files_to_delete 1), Print (Deleting ''stale.txt''),
      Request (Delete_item (Some ''tok'') ''id-stale''),
      Print (Successfully_deleted ''id-stale'')], Inr ())"
  by (simp add: deletion_step_def to_delete_nested seq_def say_def delete_sharepoint_item_def
      example_world_nested_404_fields example_world_fields)

lemma example_world_listing_fails_fields:
  "gitignore example_world_listing_fails = gitignore example_world"
  "local_tree example_world_listing_fails = local_tree example_world"
  "local_entries example_world_listing_fails = local_entries example_world"
  "file_content example_world_listing_fails = file_content example_world"
  "auth_result example_world_listing_fails = auth_result example_world"
  "remote_root example_world_listing_fails = Listing 200
       [Item ''a.txt'' ''id-a'' True False (Listing 200 []),
        Item ''stale.txt'' ''id-stale'' True False (Listing 200 []),
        Item ''old'' ''id-old'' False True (Listing 503 [])]"
  "delete_status example_world_listing_fails = delete_status example_world"
  "session_status example_world_listing_fails = session_status example_world"
  "session_upload_url example_world_listing_fails = session_upload_url example_world"
  "chunk_status example_world_listing_fails = chunk_status example_world"
  by (simp_all add: example_world_listing_fails_def local_entries_def)

lemma example_world_no_remote_fields:
  "gitignore example_world_no_remote = gitignore example_world"
  "local_tree example_world_no_remote = local_tree example_world"
  "local_entries example_world_no_remote = local_entries example_world"
  "file_content example_world_no_remote = file_content example_world"
  "auth_result example_world_no_remote = auth_result example_world"
  "remote_root example_world_no_remote = Listing 404 []"
  "delete_status example_world_no_remote = delete_status example_world"
  "session_status example_world_no_remote = session_status example_world"
  "session_upload_url example_world_no_remote = session_upload_url example_world"
  "chunk_status example_world_no_remote = chunk_status example_world"
  by (simp_all add: example_world_no_remote_def local_entries_def)

lemma scan_no_remote: "scan_local example_world_no_remote = {''a.txt'', ''empty'', ''sub/b.txt''}"
  by (simp add: scan_local_def local_files_def example_world_no_remote_fields
      example_world_fields local_file_list_example)

lemma example_token: "snd (get_access_token (auth_result example_world)) = Some ''tok''"
  by (simp add: get_access_token_def example_world_fields)

lemma listing_example:
  "get_remote_files_recursive ''Docs'' (Some ''tok'') [] (remote_root example_world) =
     ([Request (Get_children (Some ''tok'') ''root:/Docs''),
       Request (Get_children (Some ''tok'') ''root:/Docs/old'')],
      Inr [(''a.txt'', ''id-a''), (''old/stale.txt'', ''id-stale'')])"
  by (simp add: example_world_fields raise_for_status_def seq_def api_path_def
      path_join_def dict_update_def)

lemma sorted_stale:
  "sorted_list_of_set ({''a.txt'', ''old/stale.txt''} - {''a.txt'', ''empty'', ''sub/b.txt''})
     = [''old/stale.txt'']"
proof -
  have "{''a.txt'', ''old/stale.txt''} - {''a.txt'', ''empty'', ''sub/b.txt''}
      = {''old/stale.txt''}" by auto
  then show ?thesis by simp
qed









section \<open>The claims\<close>

text \<open>
  \<^bold>\<open>C2.\<close> For a file either script uploads, the byte ranges of the chunk requests of its
  session follow one another from byte 0 without gap or overlap, each lies wholly after
  the one before, together they are the bytes below the cursor, and the cursor never
  passes the size of the file. When the store opens the session, gives an upload address
  and accepts every chunk, the ranges are exactly the bytes \<open>[0, size)\<close> of the file; so
  they are whenever the upload ends with its success line.
\<close>

theorem chunk_ranges_contiguous_and_cover_file:
  assumes "file_content w local_file_path = Some content"
  shows "ranges_in_order (fst (upload_file_to_sharepoint w token local_file_path dest))
           (int (length content))
    \<and> ranges_in_order (su_upload_file_to_sharepoint w token local_file_path dest)
           (int (length content))
    \<and> (session_status w dest = 200 \<and> session_upload_url w dest = Some url \<and> url \<noteq> []
        \<and> (\<forall>a b. 200 \<le> chunk_status w url a b \<and> chunk_status w url a b \<le> 204) \<longrightarrow>
         covered (chunk_ranges (fst (upload_file_to_sharepoint w token local_file_path dest)))
           = {0 ..< int (length content)}
         \<and> covered (chunk_ranges (su_upload_file_to_sharepoint w token local_file_path dest))
           = {0 ..< int (length content)})
    \<and> (last (fst (upload_file_to_sharepoint w token local_file_path dest))
           = Print (Successfully_uploaded dest) \<longrightarrow>
         covered (chunk_ranges (fst (upload_file_to_sharepoint w token local_file_path dest)))
           = {0 ..< int (length content)})
    \<and> (last (su_upload_file_to_sharepoint w token local_file_path dest)
           = Print (Successfully_uploaded dest) \<longrightarrow>
         covered (chunk_ranges (su_upload_file_to_sharepoint w token local_file_path dest))
           = {0 ..< int (length content)})"
  using upload_ranges_in_order [OF assms] su_upload_ranges_in_order [OF assms]
    upload_accepted_covers [OF assms] su_upload_accepted_covers [OF assms]
    upload_success_covers [OF assms] su_upload_success_covers [OF assms]
  by blast

theorem chunk_ranges_contiguous_and_cover_file_witness:
  "file_content example_world_large ''data/big.bin'' = Some large_content
   \<and> length large_content = 8388610
   \<and> chunk_ranges (fst (upload_file_to_sharepoint example_world_large (Some ''tok'')
        ''data/big.bin'' ''Docs/big.bin'')) =
       [(0, 4194303), (4194304, 8388607), (8388608, 8388609)]
   \<and> chunk_ranges (su_upload_file_to_sharepoint example_world_large (Some ''tok'')
        ''data/big.bin'' ''Docs/big.bin'') =
       [(0, 1048575), (1048576, 2097151), (2097152, 3145727), (3145728, 4194303),
        (4194304, 5242879), (5242880, 6291455), (6291456, 7340031), (7340032, 8388607),
        (8388608, 8388609)]
   \<and> ranges_in_order (fst (upload_file_to_sharepoint example_world_large (Some ''tok'')
        ''data/big.bin'' ''Docs/big.bin'')) 8388610
   \<and> ranges_in_order (su_upload_file_to_sharepoint example_world_large (Some ''tok'')
        ''data/big.bin'' ''Docs/big.bin'') 8388610
   \<and> covered [(0, 4194303), (4194304, 8388607), (8388608, 8388609)] = {0 ..< 8388610}
   \<and> covered [(0, 1048575), (1048576, 2097151), (2097152, 3145727), (3145728, 4194303),
        (4194304, 5242879), (5242880, 6291455), (6291456, 7340031), (7340032, 8388607),
        (8388608, 8388609)] = {0 ..< 8388610}"
proof -
  have h: "file_content example_world_large ''data/big.bin'' = Some large_content"
    by (simp add: example_world_large_fields)
  from chunk_ranges_contiguous_and_cover_file [OF h, of "Some ''tok''" "''Docs/big.bin''"
      "''https://upload/Docs/big.bin''"]
  show ?thesis
    using h
    by (simp add: example_world_large_fields length_large_content example_upload_large
        example_su_upload_large)
qed

text \<open>
  \<^bold>\<open>C8.\<close> For a file of zero bytes, neither script sends a chunk: after the request that
  opens the session nothing more is sent. So no answer of the store is a completion
  signal, and whatever the store held before, its files are the same after the upload:
  the destination is neither created nor overwritten. (The script prints its success
  line all the same.)
\<close>

theorem zero_byte_file_sends_no_chunk:
  assumes "file_content w local_file_path = Some []"
  shows "upload_file_to_sharepoint w token local_file_path dest =
      (if session_status w dest \<noteq> 200
       then ([Request (Create_upload_session token dest),
              Print (Error_creating_upload_session dest (session_status w dest))], Inr ())
       else ([Request (Create_upload_session token dest),
              Print (Successfully_uploaded dest)], Inr ()))
    \<and> su_upload_file_to_sharepoint w token local_file_path dest =
      (if session_status w dest \<noteq> 200
       then [Request (Create_upload_session token dest),
             Print (Error_creating_upload_session dest (session_status w dest))]
       else if session_upload_url w dest = None \<or> session_upload_url w dest = Some []
       then [Request (Create_upload_session token dest),
             Print (Could_not_get_upload_url dest)]
       else [Request (Create_upload_session token dest),
             Print (Successfully_uploaded dest)])
    \<and> chunk_ranges (fst (upload_file_to_sharepoint w token local_file_path dest)) = []
    \<and> chunk_ranges (su_upload_file_to_sharepoint w token local_file_path dest) = []
    \<and> completion_signals w (fst (upload_file_to_sharepoint w token local_file_path dest)) = []
    \<and> completion_signals w (su_upload_file_to_sharepoint w token local_file_path dest) = []
    \<and> store_files (store_after w st (fst (upload_file_to_sharepoint w token local_file_path dest)))
        = store_files st
    \<and> store_files (store_after w st (su_upload_file_to_sharepoint w token local_file_path dest))
        = store_files st"
  using assms
  by (simp add: upload_file_to_sharepoint_def su_upload_file_to_sharepoint_def
      transfer_loop_end completion_signals_def store_after_def split: option.splits)

theorem zero_byte_file_sends_no_chunk_witness:
  "file_content example_world ''data/empty'' = Some []
   \<and> upload_file_to_sharepoint example_world (Some ''tok'') ''data/empty'' ''Docs/empty'' =
       ([Request (Create_upload_session (Some ''tok'') ''Docs/empty''),
         Print (Successfully_uploaded ''Docs/empty'')], Inr ())
   \<and> su_upload_file_to_sharepoint example_world (Some ''tok'') ''data/empty'' ''Docs/empty'' =
       [Request (Create_upload_session (Some ''tok'') ''Docs/empty''),
        Print (Successfully_uploaded ''Docs/empty'')]
   \<and> store_files (store_after example_world empty_store
         (fst (upload_file_to_sharepoint example_world (Some ''tok'') ''data/empty''
            ''Docs/empty''))) ''Docs/empty'' = None
   \<and> store_files (store_after example_world empty_store
         (su_upload_file_to_sharepoint example_world (Some ''tok'') ''data/empty''
            ''Docs/empty'')) ''Docs/empty'' = None
   \<and> store_files (store_after example_world empty_store
         (fst (upload_file_to_sharepoint example_world (Some ''tok'') ''data/a.txt''
            ''Docs/a.txt''))) ''Docs/a.txt'' = Some [1, 2, 3]
   \<and> completion_signals example_world
         (fst (upload_file_to_sharepoint example_world (Some ''tok'') ''data/a.txt''
            ''Docs/a.txt'')) = [Request (Put_chunk ''https://upload/Docs/a.txt'' 0 2 3 [1, 2, 3])]"
proof -
  have h: "file_content example_world ''data/empty'' = Some []"
    by (simp add: example_world_fields)
  have a: "store_files (store_after example_world empty_store
         (fst (upload_file_to_sharepoint example_world (Some ''tok'') ''data/a.txt''
            ''Docs/a.txt''))) ''Docs/a.txt'' = Some [1, 2, 3]"
    by (simp add: example_upload_a store_after_def example_world_fields empty_store_def)
  have c: "completion_signals example_world
         (fst (upload_file_to_sharepoint example_world (Some ''tok'') ''data/a.txt''
            ''Docs/a.txt'')) = [Request (Put_chunk ''https://upload/Docs/a.txt'' 0 2 3 [1, 2, 3])]"
    by (simp add: example_upload_a completion_signals_def example_world_fields)
  from zero_byte_file_sends_no_chunk [OF h, of "Some ''tok''" "''Docs/empty''" empty_store]
  show ?thesis using h a c by (simp add: example_world_fields empty_store_def store_after_def)
qed

text \<open>
  \<^bold>\<open>C10.\<close> In the standalone uploader, the upload of a local path that does not exist
  prints that the file was not found and sends nothing; the loop over the files of the
  directory, and the loop over the directories of the walk, go on with what follows.
\<close>

theorem missing_file_is_logged_and_skipped:
  assumes "file_content w (path_join (root_path cfg root) filename) = None"
    and "\<not> (case gitignore w of None \<Rightarrow> False | Some m \<Rightarrow> m (relpath_file root filename))"
  shows "su_upload_file_to_sharepoint w token (path_join (root_path cfg root) filename) dest =
      [Print (File_was_not_found (path_join (root_path cfg root) filename))]
    \<and> su_files cfg w token root (filename # files) =
      Print (File_was_not_found (path_join (root_path cfg root) filename))
        # su_files cfg w token root files
    \<and> su_triples cfg w token ((root, filename # files) # triples) =
      Print (File_was_not_found (path_join (root_path cfg root) filename))
        # su_files cfg w token root files @ su_triples cfg w token triples"
  using assms by (simp add: su_upload_file_to_sharepoint_def)

theorem missing_file_is_logged_and_skipped_witness:
  "file_content example_world_file_gone (path_join (root_path example_config []) ''a.txt'') = None
   \<and> su_triples example_config example_world_file_gone (Some ''tok'')
       (walk (gitignore example_world_file_gone) [] (local_entries example_world_file_gone)) =
     [Print (File_was_not_found ''data/a.txt''),
      Request (Create_upload_session (Some ''tok'') ''Docs/empty''),
      Print (Successfully_uploaded ''Docs/empty''),
      Print (Ignoring ''notes.log''),
      Request (Create_upload_session (Some ''tok'') ''Docs/sub/b.txt''),
      Request (Put_chunk ''https://upload/Docs/sub/b.txt'' 0 0 1 [7]),
      Print (Successfully_uploaded ''Docs/sub/b.txt'')]"
proof -
  have h: "file_content example_world_file_gone
      (path_join (root_path example_config []) ''a.txt'') = None"
    by (simp add: example_world_file_gone_fields root_path_def example_config_fields
        path_join_def)
  have g: "\<not> (case gitignore example_world_file_gone of None \<Rightarrow> False
      | Some m \<Rightarrow> m (relpath_file [] ''a.txt''))"
    by (simp add: example_world_file_gone_fields example_world_fields relpath_file_def
        example_rules_def)
  from missing_file_is_logged_and_skipped [OF h g, of "Some ''tok''" _
      "[''empty'', ''notes.log'']" "[([''sub''], [''b.txt''])]"]
  show ?thesis
    using h
    by (simp add: walk_example su_upload_file_to_sharepoint_def
        example_world_file_gone_fields example_world_fields example_config_fields
        example_rules_def root_path_def path_join_def relpath_file_def
        transfer_loop_accept transfer_loop_end)
qed

text \<open>
  \<^bold>\<open>C3\<close> fails in main.py: the \<^verbatim>\<open>except\<close> clause of \<^verbatim>\<open>get_remote_files_recursive\<close> is meant
  for the base folder (its comment and its message name the base folder), but it does not
  look at \<^verbatim>\<open>item_path\<close>, so it also catches the 404 of a nested subfolder. Here the base
  folder \<^verbatim>\<open>Docs\<close> exists and its subfolder \<^verbatim>\<open>gone\<close> answers 404: the run prints that the
  folder \<^verbatim>\<open>Docs\<close> was not found, lists the item after the subfolder, and goes on to compare
  and delete with the listing it has.
\<close>

theorem nested_not_found_is_reported_as_base_folder:
  "main example_config example_world_nested_404 =
     ([Print Gathering_local_file_list, Print Authenticating, Print Access_token_acquired,
       Print Sync_deletions_enabled,
       Request (Get_children (Some ''tok'') ''root:/Docs''),
       Request (Get_children (Some ''tok'') ''root:/Docs/gone''),
       Print (Folder_not_found ''Docs''),
       Print (Found_files_to_delete 1),
       Print (Deleting ''stale.txt''),
       Request (Delete_item (Some ''tok'') ''id-stale''),
       Print (Successfully_deleted ''id-stale''),
       Print Starting_file_uploads,
       Request (Create_upload_session (Some ''tok'') ''Docs/a.txt''),
       Request (Put_chunk ''https://upload/Docs/a.txt'' 0 2 3 [1, 2, 3]),
       Print (Successfully_uploaded ''Docs/a.txt''),
       Request (Create_upload_session (Some ''tok'') ''Docs/empty''),
       Print (Successfully_uploaded ''Docs/empty''),
       Request (Create_upload_session (Some ''tok'') ''Docs/sub/b.txt''),
       Request (Put_chunk ''https://upload/Docs/sub/b.txt'' 0 0 1 [7]),
       Print (Successfully_uploaded ''Docs/sub/b.txt''),
       Print Process_finished], Inr ())"
proof -
  have a: "get_access_token (auth_result example_world_nested_404) =
      ([Print Access_token_acquired], Some ''tok'')"
    by (simp add: get_access_token_def example_world_nested_404_fields example_world_fields)
  have l: "get_remote_files_recursive (sharepoint_base_folder example_config) (Some ''tok'') []
      (remote_root example_world_nested_404) =
     ([Request (Get_children (Some ''tok'') ''root:/Docs''),
       Request (Get_children (Some ''tok'') ''root:/Docs/gone''),
       Print (Folder_not_found ''Docs'')],
      Inr [(''a.txt'', ''id-a''), (''stale.txt'', ''id-stale'')])"
    by (simp only: example_config_fields listing_nested_404)
  have d: "deletion_step example_world_nested_404 (Some ''tok'')
      [(''a.txt'', ''id-a''), (''stale.txt'', ''id-stale'')]
      (scan_local example_world_nested_404) =
    ([Print (Found_files_to_delete 1), Print (Deleting ''stale.txt''),
      Request (Delete_item (Some ''tok'') ''id-stale''),
      Print (Successfully_deleted ''id-stale'')], Inr ())"
    by (simp only: scan_nested deletion_nested)
  have u: "upload_files example_config example_world_nested_404 (Some ''tok'')
      (sorted_list_of_set (scan_local example_world_nested_404)) =
    ([Request (Create_upload_session (Some ''tok'') ''Docs/a.txt''),
      Request (Put_chunk ''https://upload/Docs/a.txt'' 0 2 3 [1, 2, 3]),
      Print (Successfully_uploaded ''Docs/a.txt''),
      Request (Create_upload_session (Some ''tok'') ''Docs/empty''),
      Print (Successfully_uploaded ''Docs/empty''),
      Request (Create_upload_session (Some ''tok'') ''Docs/sub/b.txt''),
      Request (Put_chunk ''https://upload/Docs/sub/b.txt'' 0 0 1 [7]),
      Print (Successfully_uploaded ''Docs/sub/b.txt'')], Inr ())"
    by (simp add: scan_nested sorted_example seq_def example_config_fields path_join_def
        upload_file_to_sharepoint_def example_world_nested_404_fields example_world_fields
        transfer_loop_accept transfer_loop_end)
  have s: "sync_deletions example_config" by (simp add: example_config_fields)
  show ?thesis
    by (simp add: main_sync_run [OF s a l d u])
qed

text \<open>
  \<^bold>\<open>C5\<close> holds for the standalone uploader and fails for main.py, which never tests the
  token: with an identity provider that returns no token, and deletion-sync off, main.py
  goes on to ask for an upload session for every local file with the token \<^verbatim>\<open>None\<close>,
  while the standalone uploader, on the same input, stops behind its \<^verbatim>\<open>if token:\<close>.
\<close>

theorem main_sends_requests_without_token:
  "main (example_config\<lparr>sync_deletions := False\<rparr>) example_world_no_token =
     ([Print Gathering_local_file_list, Print Authenticating,
       Print Error_acquiring_access_token, Print Sync_deletions_disabled,
       Print Starting_file_uploads,
       Request (Create_upload_session None ''Docs/a.txt''),
       Print (Error_creating_upload_session ''Docs/a.txt'' 401),
       Request (Create_upload_session None ''Docs/empty''),
       Print (Error_creating_upload_session ''Docs/empty'' 401),
       Request (Create_upload_session None ''Docs/sub/b.txt''),
       Print (Error_creating_upload_session ''Docs/sub/b.txt'' 401),
       Print Process_finished], Inr ())
   \<and> su_main example_config example_world_no_token = [Print Error_acquiring_access_token]"
proof -
  have s: "scan_local example_world_no_token = {''a.txt'', ''empty'', ''sub/b.txt''}"
    by (simp add: scan_local_def local_files_def example_world_no_token_fields
        example_world_fields local_file_list_example)
  show ?thesis
    by (simp add: main_def su_main_def s sorted_example seq_def say_def get_access_token_def
        example_world_no_token_fields example_config_fields example_config_def
        upload_file_to_sharepoint_def path_join_def example_world_fields)
qed

text \<open>
  \<^bold>\<open>C4.\<close> With deletion-sync on, when a folder asked for its children during the listing,
  the base folder or a subfolder at any depth, answers with an error status other than
  404, main.py exits with status 1. The line that reports the listing error is the last
  thing the run does: no deletion request and no upload request (session or chunk) is
  sent, whatever the listing had found before the failure.
\<close>

theorem listing_failure_exits_before_any_upload:
  assumes "sync_deletions cfg" and "listing_fails (remote_root w)"
  shows "snd (main cfg w) = Inl (SystemExit 1)
    \<and> (\<exists>evs p st. fst (main cfg w) = evs @ [Print (Error_listing_remote_files p st)]
          \<and> st \<noteq> 404)
    \<and> delete_requests (fst (main cfg w)) = []
    \<and> session_requests (fst (main cfg w)) = []
    \<and> chunk_ranges (fst (main cfg w)) = []"
proof -
  let ?tok = "snd (get_access_token (auth_result w))"
  let ?l = "get_remote_files_recursive (sharepoint_base_folder cfg) ?tok [] (remote_root w)"
  have x: "snd ?l = Inl (SystemExit 1)" by (rule listing_fails_exit [OF assms(2)])
  note m = main_listing_exit [OF assms(1) x]
  obtain evs p st where e: "fst ?l = evs @ [Print (Error_listing_remote_files p st)]" "st \<noteq> 404"
    using listing_failure_last(1) [OF assms(2)] by blast
  have n: "delete_requests (fst ?l) = [] \<and> session_requests (fst ?l) = []
      \<and> chunk_ranges (fst ?l) = [] \<and> deleted_paths (fst ?l) = []"
    by (rule listing_events_send_nothing_else [OF listing_events(1)])
  have "fst (main cfg w) = ([Print Gathering_local_file_list, Print Authenticating]
        @ fst (get_access_token (auth_result w)) @ [Print Sync_deletions_enabled] @ evs)
        @ [Print (Error_listing_remote_files p st)]"
    using m e by simp
  then have last: "\<exists>evs p st. fst (main cfg w) = evs @ [Print (Error_listing_remote_files p st)]
          \<and> st \<noteq> 404"
    using e(2) by blast
  have "delete_requests (fst (main cfg w)) = [] \<and> session_requests (fst (main cfg w)) = []
    \<and> chunk_ranges (fst (main cfg w)) = []"
    using n get_access_token_events [of "auth_result w"]
    by (auto simp: m delete_requests_append session_requests_append chunk_ranges_append)
  with last m show ?thesis by simp
qed

theorem listing_failure_exits_before_any_upload_witness:
  "sync_deletions example_config
   \<and> listing_fails (remote_root example_world_listing_fails)
   \<and> main example_config example_world_listing_fails =
       ([Print Gathering_local_file_list, Print Authenticating, Print Access_token_acquired,
         Print Sync_deletions_enabled,
         Request (Get_children (Some ''tok'') ''root:/Docs''),
         Request (Get_children (Some ''tok'') ''root:/Docs/old''),
         Print (Error_listing_remote_files ''old'' 503)], Inl (SystemExit 1))"
proof -
  have s: "sync_deletions example_config" by (simp add: example_config_fields)
  have f: "listing_fails (remote_root example_world_listing_fails)"
    by (simp add: example_world_listing_fails_fields raise_for_status_def)
  have m: "main example_config example_world_listing_fails =
       ([Print Gathering_local_file_list, Print Authenticating, Print Access_token_acquired,
         Print Sync_deletions_enabled,
         Request (Get_children (Some ''tok'') ''root:/Docs''),
         Request (Get_children (Some ''tok'') ''root:/Docs/old''),
         Print (Error_listing_remote_files ''old'' 503)], Inl (SystemExit 1))"
    by (simp add: main_def seq_def say_def get_access_token_def example_config_fields
        example_world_listing_fails_fields example_world_fields raise_for_status_def
        api_path_def path_join_def)
  from listing_failure_exits_before_any_upload [OF s f]
  show ?thesis using s f m by simp
qed

text \<open>
  \<^bold>\<open>C1.\<close> With deletion-sync on and a listing that returns the mapping \<open>m\<close>, the paths
  main.py deletes are exactly the keys of \<open>m\<close> that are not in the local path set, each
  once and in sorted order, and the delete requests carry the item ids \<open>m\<close> gives for
  them; no delete request is sent exactly when that set is empty.
\<close>

theorem deletion_set_is_remote_keys_minus_local:
  assumes "sync_deletions cfg"
    and "snd (get_remote_files_recursive (sharepoint_base_folder cfg)
           (snd (get_access_token (auth_result w))) [] (remote_root w)) = Inr m"
  shows "set (deleted_paths (fst (main cfg w))) = set (map fst m) - scan_local w
    \<and> deleted_paths (fst (main cfg w)) = sorted_list_of_set (set (map fst m) - scan_local w)
    \<and> delete_requests (fst (main cfg w))
        = map (\<lambda>p. the (map_of m p)) (sorted_list_of_set (set (map fst m) - scan_local w))
    \<and> ((delete_requests (fst (main cfg w)) = []) = (set (map fst m) - scan_local w = {}))"
proof -
  let ?tok = "snd (get_access_token (auth_result w))"
  note ev = main_sync_events [OF assms]
  note d = deletion_step_run [of w ?tok m "scan_local w"]
  note l = listing_events_send_nothing_else [OF listing_events(1),
      of "sharepoint_base_folder cfg" ?tok "[]" "remote_root w"]
  note u = upload_events_send_nothing_else [OF upload_files_upload_events,
      of cfg w ?tok "sorted_list_of_set (scan_local w)"]
  have p: "deleted_paths (fst (main cfg w))
      = sorted_list_of_set (set (map fst m) - scan_local w)"
    using d l u get_access_token_events [of "auth_result w"]
    by (auto simp: ev deleted_paths_append split: sum.splits)
  have r: "delete_requests (fst (main cfg w))
      = map (\<lambda>p. the (map_of m p)) (sorted_list_of_set (set (map fst m) - scan_local w))"
    using d l u get_access_token_events [of "auth_result w"]
    by (auto simp: ev delete_requests_append split: sum.splits)
  have f: "finite (set (map fst m) - scan_local w)" by simp
  have s: "set (deleted_paths (fst (main cfg w))) = set (map fst m) - scan_local w"
    unfolding p using f by (rule sorted_list_of_set.set_sorted_key_list_of_set)
  have e: "(delete_requests (fst (main cfg w)) = []) = (set (map fst m) - scan_local w = {})"
    unfolding r using f by (simp del: Diff_eq_empty_iff set_map)
  from s p r e show ?thesis by blast
qed

theorem deletion_set_is_remote_keys_minus_local_witness:
  "sync_deletions example_config
   \<and> snd (get_remote_files_recursive (sharepoint_base_folder example_config)
        (snd (get_access_token (auth_result example_world))) [] (remote_root example_world))
      = Inr [(''a.txt'', ''id-a''), (''old/stale.txt'', ''id-stale'')]
   \<and> scan_local example_world = {''a.txt'', ''empty'', ''sub/b.txt''}
   \<and> deleted_paths (fst (main example_config example_world)) = [''old/stale.txt'']
   \<and> delete_requests (fst (main example_config example_world)) = [''id-stale'']
   \<and> snd (get_remote_files_recursive (sharepoint_base_folder example_config)
        (snd (get_access_token (auth_result example_world_no_remote))) []
        (remote_root example_world_no_remote)) = Inr []
   \<and> deleted_paths (fst (main example_config example_world_no_remote)) = []
   \<and> delete_requests (fst (main example_config example_world_no_remote)) = []"
proof -
  have s: "sync_deletions example_config" by (simp add: example_config_fields)
  have l: "snd (get_remote_files_recursive (sharepoint_base_folder example_config)
        (snd (get_access_token (auth_result example_world))) [] (remote_root example_world))
      = Inr [(''a.txt'', ''id-a''), (''old/stale.txt'', ''id-stale'')]"
    by (simp only: example_config_fields example_token listing_example snd_conv)
  have l': "snd (get_remote_files_recursive (sharepoint_base_folder example_config)
        (snd (get_access_token (auth_result example_world_no_remote))) []
        (remote_root example_world_no_remote)) = Inr []"
    by (simp add: example_config_fields example_world_no_remote_fields raise_for_status_def)
  from deletion_set_is_remote_keys_minus_local [OF s l]
    deletion_set_is_remote_keys_minus_local [OF s l']
  show ?thesis
    using s l l'
    by (simp add: scan_local_example scan_no_remote sorted_stale)
qed



end
